theory Spec2Isabelle
  imports Main "HOL-Library.Word"
begin

unbundle bit_operations_syntax

section \<open>Packed pixels: \<open>Blit::PixelBase\<close> and \<open>Blit::Pixel\<close>\<close>

text \<open>
  \<open>PixelBase\<close> is a template over the storage type \<open>T\<close> and, for each of the four
  channels, a bit count and a shift. The eight numbers are kept as a record that every
  operation takes as its first argument. The storage type is the one of the only
  instantiation, \<open>std::uint16_t\<close>; the SSE2 paths are written for 16-bit lanes anyway.
  The arguments of \<open>ARGB\<close> and the loop counters are \<open>unsigned\<close>, 32 bits wide, and
  \<open>std::size_t\<close> is taken to be 64 bits wide.
\<close>

type_synonym pixel = "16 word"

record PixelBase_params =
  alpha_bits :: nat
  alpha_shift :: nat
  red_bits :: nat
  red_shift :: nat
  green_bits :: nat
  green_shift :: nat
  blue_bits :: nat
  blue_shift :: nat

text \<open>\<open>typedef PixelBase<std::uint16_t, 1, 15, 5, 10, 5, 5, 5, 0> Pixel\<close>\<close>

definition Pixel :: PixelBase_params where
  "Pixel = \<lparr>alpha_bits = 1, alpha_shift = 15, red_bits = 5, red_shift = 10,
            green_bits = 5, green_shift = 5, blue_bits = 5, blue_shift = 0\<rparr>"

text \<open>
  The masks are computed in \<open>int\<close> and converted to \<open>T\<close>:
  \<open>((1 << alpha_bits) - 1) << alpha_shift\<close>.
\<close>

definition alpha_mask :: "PixelBase_params \<Rightarrow> pixel" where
  "alpha_mask P = ucast (push_bit (alpha_shift P) (push_bit (alpha_bits P) (1 :: 32 word) - 1))"

definition rgb_mask :: "PixelBase_params \<Rightarrow> pixel" where
  "rgb_mask P = ucast
     (push_bit (red_shift P) (push_bit (red_bits P) (1 :: 32 word) - 1) OR
      push_bit (green_shift P) (push_bit (green_bits P) (1 :: 32 word) - 1) OR
      push_bit (blue_shift P) (push_bit (blue_bits P) (1 :: 32 word) - 1))"

text \<open>\<open>set_if_alpha\<close>: the first pixel is \<open>*this\<close>, the second the argument \<open>pix\<close>.\<close>

definition set_if_alpha :: "PixelBase_params \<Rightarrow> pixel \<Rightarrow> pixel \<Rightarrow> pixel" where
  "set_if_alpha P this pix = (if pix AND alpha_mask P \<noteq> 0 then pix else this)"

text \<open>
  \<open>ARGB\<close> shifts each \<open>unsigned\<close> argument down to the channel's width and up to its
  position; the \<open>unsigned\<close> result is converted to \<open>T\<close> by the constructor. The source
  has the statements for \<open>r\<close>, \<open>g\<close>, \<open>b\<close> first and those for \<open>a\<close> last. A channel of
  more than 8 bits or a shift of 32 or more, which C++ leaves undefined, is no concern of
  \<open>Pixel\<close>; here \<open>8 - bits\<close> stops at 0 and such a shift gives 0.
\<close>

definition ARGB :: "PixelBase_params \<Rightarrow> 32 word \<Rightarrow> 32 word \<Rightarrow> 32 word \<Rightarrow> 32 word \<Rightarrow> pixel" where
  "ARGB P a r g b =
     (let r1 = drop_bit (8 - red_bits P) r;
          g1 = drop_bit (8 - green_bits P) g;
          b1 = drop_bit (8 - blue_bits P) b;
          r2 = push_bit (red_shift P) r1;
          g2 = push_bit (green_shift P) g1;
          b2 = push_bit (blue_shift P) b1;
          a1 = drop_bit (8 - alpha_bits P) a;
          a2 = push_bit (alpha_shift P) a1
      in ucast (a2 OR r2 OR g2 OR b2))"

text \<open>
  Reading a channel back "via its mask and shift": the field of \<open>bits\<close> bits at \<open>shift\<close>,
  with the mask built as the source builds \<open>alpha_mask\<close>.
\<close>

definition channel :: "nat \<Rightarrow> nat \<Rightarrow> pixel \<Rightarrow> pixel" where
  "channel bits shift p =
     drop_bit shift (p AND ucast (push_bit shift (push_bit bits (1 :: 32 word) - 1)))"

section \<open>Pixel buffers\<close>

text \<open>
  The memory is one list of pixels and a pointer is a position in it, so that \<open>dst\<close> and
  \<open>src\<close> may point into the same array: \<open>dst[x]\<close> is the pixel at \<open>dst + x\<close>, and a write
  to it is seen by every later read of that position through \<open>src\<close>. The source checks no
  bound; an access at or behind the end of the memory is the error \<open>OutOfBounds\<close>. The
  functions return the memory. \<open>mask_rgb\<close> has one pointer; its list is the memory from
  that pointer on.
\<close>

datatype error = OutOfBounds

subsection \<open>The scalar paths\<close>

text \<open>
  \<open>for (...; x < pix; x++) dst[x].set_if_alpha(src[x]);\<close> from the counter value \<open>x\<close> on.
  It is the whole scalar \<open>set_line_if_alpha\<close> from 0 and the tail of the SSE2 one.
\<close>

function set_line_loop ::
  "PixelBase_params \<Rightarrow> pixel list \<Rightarrow> nat \<Rightarrow> nat \<Rightarrow> 32 word \<Rightarrow> 32 word \<Rightarrow> error + pixel list" where
  "set_line_loop P mem dst src pix x =
     (if x < pix then
        (if dst + unat x < length mem \<and> src + unat x < length mem then
           set_line_loop P
             (mem[dst + unat x := set_if_alpha P (mem ! (dst + unat x)) (mem ! (src + unat x))])
             dst src pix (x + 1)
         else Inl OutOfBounds)
      else Inr mem)"
  by pat_completeness auto
termination
proof (relation "measure (\<lambda>(P, mem, dst, src, pix, x). unat pix - unat x)")
  show "wf (measure (\<lambda>(P, mem, dst, src, pix, x). unat pix - unat x))"
    by simp
next
  fix P :: PixelBase_params and mem :: "pixel list" and dst src :: nat and pix x :: "32 word"
  assume "x < pix"
  then have "unat x < unat pix"
    by (simp add: word_less_nat_alt)
  moreover from \<open>x < pix\<close> have "unat (x + 1) = unat x + 1"
    using unsigned_less [of pix, where ?'a = nat]
    by (simp add: word_less_nat_alt unat_word_ariths)
  ultimately show
    "((P, mem[dst + unat x := set_if_alpha P (mem ! (dst + unat x)) (mem ! (src + unat x))],
        dst, src, pix, x + 1),
      (P, mem, dst, src, pix, x)) \<in> measure (\<lambda>(P, mem, dst, src, pix, x). unat pix - unat x)"
    by simp
qed

definition set_line_if_alpha ::
  "PixelBase_params \<Rightarrow> pixel list \<Rightarrow> nat \<Rightarrow> nat \<Rightarrow> 32 word \<Rightarrow> error + pixel list" where
  "set_line_if_alpha P mem dst src pix = set_line_loop P mem dst src pix 0"

text \<open>
  \<open>std::transform(first, last, first, fn)\<close> on the range of positions
  \<open>first ..< lst\<close> of a buffer, in place.
\<close>

definition std_transform :: "pixel list \<Rightarrow> nat \<Rightarrow> nat \<Rightarrow> (pixel \<Rightarrow> pixel) \<Rightarrow> error + pixel list" where
  "std_transform buf first lst fn =
     (if first \<le> lst \<and> lst \<le> length buf then
        Inr (take first buf @ map fn (take (lst - first) (drop first buf)) @ drop lst buf)
      else Inl OutOfBounds)"

definition mask_rgb :: "PixelBase_params \<Rightarrow> pixel list \<Rightarrow> 64 word \<Rightarrow> error + pixel list" where
  "mask_rgb P dst size' = std_transform dst 0 (unat size') (\<lambda>pix. pix AND rgb_mask P)"

subsection \<open>The SSE2 paths\<close>

text \<open>
  An \<open>__m128i\<close> is used by the source as eight 16-bit lanes, lane \<open>k\<close> being the pixel at
  offset \<open>k\<close> of the unaligned load. The intrinsics are those of \<open>emmintrin.h\<close>; the bitwise
  ones act on every lane alike.
\<close>

type_synonym m128i = "16 word list"

definition mm_set1_epi16 :: "16 word \<Rightarrow> m128i" where
  "mm_set1_epi16 v = replicate 8 v"

definition mm_setzero_si128 :: m128i where
  "mm_setzero_si128 = replicate 8 0"

definition mm_loadu_si128 :: "pixel list \<Rightarrow> nat \<Rightarrow> m128i" where
  "mm_loadu_si128 buf i = take 8 (drop i buf)"

definition mm_storeu_si128 :: "pixel list \<Rightarrow> nat \<Rightarrow> m128i \<Rightarrow> pixel list" where
  "mm_storeu_si128 buf i v = take i buf @ v @ drop (i + 8) buf"

definition mm_cmpeq_epi16 :: "m128i \<Rightarrow> m128i \<Rightarrow> m128i" where
  "mm_cmpeq_epi16 a b = map2 (\<lambda>p q. if p = q then - 1 else 0) a b"

definition mm_and_si128 :: "m128i \<Rightarrow> m128i \<Rightarrow> m128i" where
  "mm_and_si128 a b = map2 (\<lambda>p q. p AND q) a b"

definition mm_or_si128 :: "m128i \<Rightarrow> m128i \<Rightarrow> m128i" where
  "mm_or_si128 a b = map2 (\<lambda>p q. p OR q) a b"

definition mm_andnot_si128 :: "m128i \<Rightarrow> m128i \<Rightarrow> m128i" where
  "mm_andnot_si128 a b = map2 (\<lambda>p q. NOT p AND q) a b"

text \<open>
  The body of the vector loop of \<open>set_line_if_alpha\<close>: eight pixels at \<open>x\<close>. Both groups
  are loaded before the one store.
\<close>

definition set_line_sse2_body :: "m128i \<Rightarrow> pixel list \<Rightarrow> nat \<Rightarrow> nat \<Rightarrow> nat \<Rightarrow> pixel list" where
  "set_line_sse2_body mask' mem dst src x =
     (let src_vec = mm_loadu_si128 mem (src + x);
          dst_vec = mm_loadu_si128 mem (dst + x);
          noalpha = mm_cmpeq_epi16 (mm_and_si128 src_vec mask') mm_setzero_si128;
          res = mm_or_si128 (mm_and_si128 noalpha dst_vec) (mm_andnot_si128 noalpha src_vec)
      in mm_storeu_si128 mem (dst + x) res)"

text \<open>
  \<open>for (x = 0; x + 8 < pix; x += 8)\<close>: the counter is \<open>unsigned\<close>, so \<open>x + 8\<close> wraps
  around at \<open>2^32\<close>. The loop need not end; \<open>None\<close> is "does not return". It returns the
  memory and the counter for the scalar tail.
\<close>

partial_function (option) set_line_sse2_loop ::
  "m128i \<Rightarrow> pixel list \<Rightarrow> nat \<Rightarrow> nat \<Rightarrow> 32 word \<Rightarrow> 32 word \<Rightarrow> (error + pixel list \<times> 32 word) option" where
  "set_line_sse2_loop mask' mem dst src pix x =
     (if x + 8 < pix then
        (if dst + unat x + 8 \<le> length mem \<and> src + unat x + 8 \<le> length mem then
           set_line_sse2_loop mask' (set_line_sse2_body mask' mem dst src (unat x)) dst src pix (x + 8)
         else Some (Inl OutOfBounds))
      else Some (Inr (mem, x)))"

definition set_line_if_alpha_sse2 ::
  "PixelBase_params \<Rightarrow> pixel list \<Rightarrow> nat \<Rightarrow> nat \<Rightarrow> 32 word \<Rightarrow> (error + pixel list) option" where
  "set_line_if_alpha_sse2 P mem dst src pix =
     (case set_line_sse2_loop (mm_set1_epi16 (alpha_mask P)) mem dst src pix 0 of
        None \<Rightarrow> None
      | Some (Inl e) \<Rightarrow> Some (Inl e)
      | Some (Inr (mem', x)) \<Rightarrow> Some (set_line_loop P mem' dst src pix x))"

text \<open>
  \<open>mask_rgb\<close> with SSE2: the counter is \<open>unsigned\<close> and the size a \<open>std::size_t\<close>, so
  \<open>x + 8\<close> wraps around at \<open>2^32\<close> before it is widened for the comparison.
\<close>

definition mask_rgb_sse2_body :: "m128i \<Rightarrow> pixel list \<Rightarrow> nat \<Rightarrow> pixel list" where
  "mask_rgb_sse2_body mask' dst x = mm_storeu_si128 dst x (mm_and_si128 (mm_loadu_si128 dst x) mask')"

partial_function (option) mask_rgb_sse2_loop ::
  "m128i \<Rightarrow> pixel list \<Rightarrow> 64 word \<Rightarrow> 32 word \<Rightarrow> (error + pixel list \<times> 32 word) option" where
  "mask_rgb_sse2_loop mask' dst size' x =
     (if ucast (x + 8) < size' then
        (if unat x + 8 \<le> length dst then
           mask_rgb_sse2_loop mask' (mask_rgb_sse2_body mask' dst (unat x)) size' (x + 8)
         else Some (Inl OutOfBounds))
      else Some (Inr (dst, x)))"

definition mask_rgb_sse2 ::
  "PixelBase_params \<Rightarrow> pixel list \<Rightarrow> 64 word \<Rightarrow> (error + pixel list) option" where
  "mask_rgb_sse2 P dst size' =
     (case mask_rgb_sse2_loop (mm_set1_epi16 (rgb_mask P)) dst size' 0 of
        None \<Rightarrow> None
      | Some (Inl e) \<Rightarrow> Some (Inl e)
      | Some (Inr (dst', x)) \<Rightarrow>
          Some (std_transform dst' (unat x) (unat size') (\<lambda>pix. pix AND rgb_mask P)))"

section \<open>Geometry: \<open>Blit::Pos\<close> and \<open>Blit::Rect\<close>\<close>

text \<open>
  The coordinates are \<open>int\<close>, 32 bits wide (the source asserts it). They are words read
  as two's complement: \<open>sint\<close> is the value, \<open>word_sless\<close> and \<open>word_sle\<close> compare, and
  \<open>+\<close> and \<open>-\<close> give the two's complement result where C++ leaves signed overflow
  undefined. The fields \<open>x\<close>, \<open>y\<close>, \<open>pos\<close>, \<open>w\<close>, \<open>h\<close> carry the name of their struct.
\<close>

record Pos =
  Pos_x :: "32 word"
  Pos_y :: "32 word"

record Rect =
  Rect_pos :: Pos
  Rect_w :: "32 word"
  Rect_h :: "32 word"

text \<open>
  \<open>Pos::operator<\<close>: \<open>static_cast<std::uint32_t>\<close> keeps the bits of the coordinate,
  which is then widened to 64 bits without sign.
\<close>

definition Pos_key :: "Pos \<Rightarrow> 64 word" where
  "Pos_key p = push_bit 32 (ucast (Pos_x p)) OR ucast (Pos_y p)"

definition Pos_less :: "Pos \<Rightarrow> Pos \<Rightarrow> bool" where
  "Pos_less this pos = (Pos_key this < Pos_key pos)"

text \<open>\<open>std::max\<close> and \<open>std::min\<close> on \<open>int\<close>.\<close>

definition std_max :: "32 word \<Rightarrow> 32 word \<Rightarrow> 32 word" where
  "std_max a b = (if word_sless a b then b else a)"

definition std_min :: "32 word \<Rightarrow> 32 word \<Rightarrow> 32 word" where
  "std_min a b = (if word_sless b a then b else a)"

text \<open>\<open>Rect::operator&\<close>, the intersection, and \<open>Rect::operator bool\<close>.\<close>

definition Rect_and :: "Rect \<Rightarrow> Rect \<Rightarrow> Rect" where
  "Rect_and this rect =
     (let x_left = std_max (Pos_x (Rect_pos this)) (Pos_x (Rect_pos rect));
          x_right = std_min (Pos_x (Rect_pos this) + Rect_w this) (Pos_x (Rect_pos rect) + Rect_w rect);
          width = x_right - x_left;
          y_top = std_max (Pos_y (Rect_pos this)) (Pos_y (Rect_pos rect));
          y_bottom = std_min (Pos_y (Rect_pos this) + Rect_h this) (Pos_y (Rect_pos rect) + Rect_h rect);
          height = y_bottom - y_top
      in if word_sle width 0 \<or> word_sle height 0 then
           \<lparr>Rect_pos = \<lparr>Pos_x = 0, Pos_y = 0\<rparr>, Rect_w = 0, Rect_h = 0\<rparr>
         else
           \<lparr>Rect_pos = \<lparr>Pos_x = x_left, Pos_y = y_top\<rparr>, Rect_w = width, Rect_h = height\<rparr>)"

definition Rect_bool :: "Rect \<Rightarrow> bool" where
  "Rect_bool r = (word_sless 0 (Rect_w r) \<and> word_sless 0 (Rect_h r))"

text \<open>The canonical empty rectangle \<open>{{0, 0}, 0, 0}\<close>.\<close>

definition Rect_empty :: Rect where
  "Rect_empty = \<lparr>Rect_pos = \<lparr>Pos_x = 0, Pos_y = 0\<rparr>, Rect_w = 0, Rect_h = 0\<rparr>"

text \<open>
  What the statements about rectangles speak of: a mathematical integer that an \<open>int\<close>
  can hold, the four edges of a rectangle as mathematical integers, and the rectangles
  whose right and bottom edges can be held.
\<close>

definition int32_fits :: "int \<Rightarrow> bool" where
  "int32_fits k = (- (2 ^ 31) \<le> k \<and> k < 2 ^ 31)"

definition Rect_left :: "Rect \<Rightarrow> int" where
  "Rect_left r = sint (Pos_x (Rect_pos r))"

definition Rect_right :: "Rect \<Rightarrow> int" where
  "Rect_right r = sint (Pos_x (Rect_pos r)) + sint (Rect_w r)"

definition Rect_top :: "Rect \<Rightarrow> int" where
  "Rect_top r = sint (Pos_y (Rect_pos r))"

definition Rect_bottom :: "Rect \<Rightarrow> int" where
  "Rect_bottom r = sint (Pos_y (Rect_pos r)) + sint (Rect_h r)"

definition edge_sums_fit :: "Rect \<Rightarrow> bool" where
  "edge_sums_fit r = (int32_fits (Rect_right r) \<and> int32_fits (Rect_bottom r))"

text \<open>
  The quantities of the intersection as the specification names them, on mathematical
  integers, and the pairs of rectangles for which the two differences can be held by an
  \<open>int\<close>.
\<close>

definition spec_left :: "Rect \<Rightarrow> Rect \<Rightarrow> int" where
  "spec_left A B = max (Rect_left A) (Rect_left B)"

definition spec_right :: "Rect \<Rightarrow> Rect \<Rightarrow> int" where
  "spec_right A B = min (Rect_right A) (Rect_right B)"

definition spec_top :: "Rect \<Rightarrow> Rect \<Rightarrow> int" where
  "spec_top A B = max (Rect_top A) (Rect_top B)"

definition spec_bottom :: "Rect \<Rightarrow> Rect \<Rightarrow> int" where
  "spec_bottom A B = min (Rect_bottom A) (Rect_bottom B)"

definition differences_fit :: "Rect \<Rightarrow> Rect \<Rightarrow> bool" where
  "differences_fit A B =
     (int32_fits (spec_right A B - spec_left A B) \<and> int32_fits (spec_bottom A B - spec_top A B))"

text \<open>The lexicographic order on the signed coordinates, to compare \<open>Pos_less\<close> with.\<close>

definition signed_lex_less :: "Pos \<Rightarrow> Pos \<Rightarrow> bool" where
  "signed_lex_less p q =
     (sint (Pos_x p) < sint (Pos_x q) \<or> (sint (Pos_x p) = sint (Pos_x q) \<and> sint (Pos_y p) < sint (Pos_y q)))"

text \<open>
  The effect of a loop over the positions \<open>lo ..< hi\<close> of a buffer, written without a
  loop: position \<open>i\<close> of that range holds \<open>g i\<close> of the old pixel, every other position
  keeps its pixel. The loops of the source are proved equal to it.
\<close>

definition update_range :: "(nat \<Rightarrow> pixel \<Rightarrow> pixel) \<Rightarrow> nat \<Rightarrow> nat \<Rightarrow> pixel list \<Rightarrow> pixel list" where
  "update_range g lo hi buf =
     map (\<lambda>i. if lo \<le> i \<and> i < hi then g i (buf ! i) else buf ! i) [0..<length buf]"

text \<open>
  What one step of the loops writes to position \<open>i\<close> of the destination: \<open>set_if_alpha\<close> of
  the pixel there and of the source pixel that a memory \<open>mem\<close> holds at the same offset.
\<close>

definition composite :: "PixelBase_params \<Rightarrow> pixel list \<Rightarrow> nat \<Rightarrow> nat \<Rightarrow> nat \<Rightarrow> pixel \<Rightarrow> pixel" where
  "composite P mem dst src i p = set_if_alpha P p (mem ! (src + (i - dst)))"

section \<open>Pixel format: masks and channels\<close>

lemma alpha_mask_Pixel: "alpha_mask Pixel = 0x8000"
  by (simp add: alpha_mask_def Pixel_def)

lemma rgb_mask_Pixel: "rgb_mask Pixel = 0x7FFF"
  by (simp add: rgb_mask_def Pixel_def)

lemma le_255_take_bit: "(a :: 32 word) \<le> 255 \<Longrightarrow> take_bit 8 a = a"
  by (simp add: word_unat_eq_iff unsigned_take_bit_eq take_bit_nat_eq_self_iff word_le_nat_alt)

lemma field_mask: "push_bit bits (1 :: 32 word) - 1 = mask bits"
  by (simp add: mask_eq_exp_minus_1)

lemma bit_channel: "bit (channel bits shift p) n \<longleftrightarrow> n < bits \<and> bit p (shift + n)"
  unfolding channel_def field_mask
  by (auto simp add: bit_simps dest: bit_imp_le_length)

lemma channel_alpha_ARGB:
  "channel (alpha_bits Pixel) (alpha_shift Pixel)
      (ARGB Pixel (take_bit 8 a) (take_bit 8 r) (take_bit 8 g) (take_bit 8 b)) =
    ucast (drop_bit 7 (take_bit 8 a))"
  unfolding ARGB_def Pixel_def Let_def
  by (rule bit_word_eqI) (auto simp add: bit_channel bit_simps)

lemma channel_red_ARGB:
  "channel (red_bits Pixel) (red_shift Pixel)
      (ARGB Pixel (take_bit 8 a) (take_bit 8 r) (take_bit 8 g) (take_bit 8 b)) =
    ucast (drop_bit 3 (take_bit 8 r))"
  unfolding ARGB_def Pixel_def Let_def
  by (rule bit_word_eqI) (auto simp add: bit_channel bit_simps)

lemma channel_green_ARGB:
  "channel (green_bits Pixel) (green_shift Pixel)
      (ARGB Pixel (take_bit 8 a) (take_bit 8 r) (take_bit 8 g) (take_bit 8 b)) =
    ucast (drop_bit 3 (take_bit 8 g))"
  unfolding ARGB_def Pixel_def Let_def
  by (rule bit_word_eqI) (auto simp add: bit_channel bit_simps)

lemma channel_blue_ARGB:
  "channel (blue_bits Pixel) (blue_shift Pixel)
      (ARGB Pixel (take_bit 8 a) (take_bit 8 r) (take_bit 8 g) (take_bit 8 b)) =
    ucast (drop_bit 3 (take_bit 8 b))"
  unfolding ARGB_def Pixel_def Let_def
  by (rule bit_word_eqI) (auto simp add: bit_channel bit_simps)

lemma unat_ucast_drop_bit:
  assumes "(x :: 32 word) \<le> 255"
  shows "unat (ucast (drop_bit k x) :: 16 word) = unat x div 2 ^ k"
proof -
  have "unat x \<le> 255"
    using assms by (simp add: word_le_nat_alt)
  then have "unat x div 2 ^ k \<le> 255"
    by (meson div_le_dividend le_trans)
  moreover have "unat (ucast (drop_bit k x) :: 16 word) = take_bit 16 (drop_bit k (unat x))"
    by (simp add: unsigned_ucast_eq unat_drop_bit_eq)
  ultimately show ?thesis
    by (simp add: drop_bit_eq_div take_bit_eq_mod)
qed

text \<open>
  C4: for channel values \<open>a\<close>, \<open>r\<close>, \<open>g\<close>, \<open>b\<close> in 0..255, each channel read back from
  \<open>ARGB(a, r, g, b)\<close> of the format \<open>Pixel\<close> through its mask and shift is the input
  shifted right to the channel's width, \<open>v div 2^(8 - bits)\<close>: the low bits are cut off,
  nothing is rounded.
\<close>

theorem ARGB_channels_truncate:
  assumes "a \<le> 255" "r \<le> 255" "g \<le> 255" "b \<le> 255"
  shows "unat (channel (alpha_bits Pixel) (alpha_shift Pixel) (ARGB Pixel a r g b))
           = unat a div 2 ^ (8 - alpha_bits Pixel)
       \<and> unat (channel (red_bits Pixel) (red_shift Pixel) (ARGB Pixel a r g b))
           = unat r div 2 ^ (8 - red_bits Pixel)
       \<and> unat (channel (green_bits Pixel) (green_shift Pixel) (ARGB Pixel a r g b))
           = unat g div 2 ^ (8 - green_bits Pixel)
       \<and> unat (channel (blue_bits Pixel) (blue_shift Pixel) (ARGB Pixel a r g b))
           = unat b div 2 ^ (8 - blue_bits Pixel)"
proof -
  have t: "take_bit 8 a = a" "take_bit 8 r = r" "take_bit 8 g = g" "take_bit 8 b = b"
    using assms by (simp_all add: le_255_take_bit)
  have "channel (alpha_bits Pixel) (alpha_shift Pixel) (ARGB Pixel a r g b) = ucast (drop_bit 7 a)"
    using channel_alpha_ARGB [of a r g b] by (simp only: t)
  moreover have "channel (red_bits Pixel) (red_shift Pixel) (ARGB Pixel a r g b) = ucast (drop_bit 3 r)"
    using channel_red_ARGB [of a r g b] by (simp only: t)
  moreover have "channel (green_bits Pixel) (green_shift Pixel) (ARGB Pixel a r g b) = ucast (drop_bit 3 g)"
    using channel_green_ARGB [of a r g b] by (simp only: t)
  moreover have "channel (blue_bits Pixel) (blue_shift Pixel) (ARGB Pixel a r g b) = ucast (drop_bit 3 b)"
    using channel_blue_ARGB [of a r g b] by (simp only: t)
  ultimately show ?thesis
    using assms by (simp add: unat_ucast_drop_bit) (simp add: Pixel_def)
qed

text \<open>
  At \<open>ARGB(255, 255, 7, 128)\<close>: alpha 1, red \<open>0x1F\<close>, green 0 (rounding would give 1),
  blue 16.
\<close>

theorem ARGB_channels_truncate_witness:
  "(255 :: 32 word) \<le> 255 \<and> (7 :: 32 word) \<le> 255 \<and> (128 :: 32 word) \<le> 255
   \<and> unat (channel (alpha_bits Pixel) (alpha_shift Pixel) (ARGB Pixel 255 255 7 128)) = 1
   \<and> unat (channel (red_bits Pixel) (red_shift Pixel) (ARGB Pixel 255 255 7 128)) = 0x1F
   \<and> unat (channel (green_bits Pixel) (green_shift Pixel) (ARGB Pixel 255 255 7 128)) = 0
   \<and> unat (channel (blue_bits Pixel) (blue_shift Pixel) (ARGB Pixel 255 255 7 128)) = 16"
  using ARGB_channels_truncate [of 255 255 7 128]
  by (simp add: Pixel_def)

section \<open>Buffers: the loops as updates of a range\<close>

lemma length_update_range [simp]: "length (update_range g lo hi buf) = length buf"
  by (simp add: update_range_def)

lemma nth_update_range [simp]:
  "i < length buf \<Longrightarrow>
     update_range g lo hi buf ! i = (if lo \<le> i \<and> i < hi then g i (buf ! i) else buf ! i)"
  by (simp add: update_range_def)

lemma update_range_empty [simp]: "hi \<le> lo \<Longrightarrow> update_range g lo hi buf = buf"
  by (rule nth_equalityI) auto

lemma update_range_join:
  "a \<le> b \<Longrightarrow> b \<le> c \<Longrightarrow> update_range g b c (update_range g a b buf) = update_range g a c buf"
  by (rule nth_equalityI) auto

lemma update_range_snoc:
  "lo \<le> hi \<Longrightarrow> hi < length buf \<Longrightarrow>
     (update_range g lo hi buf)[hi := g hi (buf ! hi)] = update_range g lo (Suc hi) buf"
  by (rule nth_equalityI) (auto simp add: nth_list_update)

lemma update_range_cong:
  "(\<And>i. lo \<le> i \<Longrightarrow> i < hi \<Longrightarrow> i < length buf \<Longrightarrow> g i (buf ! i) = h i (buf ! i)) \<Longrightarrow>
     update_range g lo hi buf = update_range h lo hi buf"
  by (rule nth_equalityI) auto

subsection \<open>The scalar loop\<close>

text \<open>
  As long as \<open>dst\<close> does not begin inside the source behind its first pixel, the loop
  never reads a position it has written: it reads \<open>src + x\<close> when it has written
  \<open>dst ..< dst + x\<close>. Its reads are then those of the memory before the call.
\<close>

lemma unat_succ: "(x :: 32 word) < pix \<Longrightarrow> unat (x + 1) = Suc (unat x)"
  using unsigned_less [of pix, where ?'a = nat]
  by (simp add: word_less_nat_alt unat_word_ariths)

lemma set_line_loop_eq:
  assumes "dst + unat pix \<le> length mem" "src + unat pix \<le> length mem"
    and "dst \<le> src \<or> src + unat pix \<le> dst" "x \<le> pix"
  shows "set_line_loop P (update_range (composite P mem dst src) dst (dst + unat x) mem) dst src pix x =
       Inr (update_range (composite P mem dst src) dst (dst + unat pix) mem)"
  using assms(4)
proof (induction "unat pix - unat x" arbitrary: x rule: less_induct)
  case less
  let ?g = "composite P mem dst src"
  let ?cur = "update_range ?g dst (dst + unat x) mem"
  show ?case
  proof (cases "x < pix")
    case True
    then have lt: "unat x < unat pix"
      by (simp add: word_less_nat_alt)
    have s: "unat (x + 1) = Suc (unat x)"
      using True by (rule unat_succ)
    have le: "x + 1 \<le> pix"
      using lt s by (simp add: word_le_nat_alt)
    have inb: "dst + unat x < length mem" "src + unat x < length mem"
      using lt assms(1,2) by simp_all
    have rd: "?cur ! (dst + unat x) = mem ! (dst + unat x)"
      using inb by simp
    have rs: "?cur ! (src + unat x) = mem ! (src + unat x)"
      using inb assms(3) lt by auto
    have "?cur[dst + unat x := set_if_alpha P (?cur ! (dst + unat x)) (?cur ! (src + unat x))] =
        ?cur[dst + unat x := ?g (dst + unat x) (mem ! (dst + unat x))]"
      by (simp only: rd rs composite_def) simp
    also have "\<dots> = update_range ?g dst (Suc (dst + unat x)) mem"
      using inb by (intro update_range_snoc) simp_all
    finally have w: "?cur[dst + unat x := set_if_alpha P (?cur ! (dst + unat x)) (?cur ! (src + unat x))] =
        update_range ?g dst (dst + unat (x + 1)) mem"
      by (simp add: s)
    have "set_line_loop P ?cur dst src pix x =
        set_line_loop P
          (?cur[dst + unat x := set_if_alpha P (?cur ! (dst + unat x)) (?cur ! (src + unat x))])
          dst src pix (x + 1)"
      by (subst set_line_loop.simps) (simp only: True inb length_update_range if_True simp_thms)
    also have "\<dots> = set_line_loop P (update_range ?g dst (dst + unat (x + 1)) mem) dst src pix (x + 1)"
      by (simp only: w)
    also have "\<dots> = Inr (update_range ?g dst (dst + unat pix) mem)"
      using lt s le by (intro less.hyps) simp_all
    finally show ?thesis .
  next
    case False
    with less.prems have "x = pix"
      by simp
    with False show ?thesis
      by (subst set_line_loop.simps) simp
  qed
qed

lemma set_line_if_alpha_eq:
  assumes "dst + unat pix \<le> length mem" "src + unat pix \<le> length mem"
    and "dst \<le> src \<or> src + unat pix \<le> dst"
  shows "set_line_if_alpha P mem dst src pix =
       Inr (update_range (composite P mem dst src) dst (dst + unat pix) mem)"
  using set_line_loop_eq [OF assms, of 0 P] by (simp add: set_line_if_alpha_def)

subsection \<open>One vector group\<close>

lemma set_line_sse2_body_eq:
  assumes "dst + x + 8 \<le> length mem" "src + x + 8 \<le> length mem"
  shows "set_line_sse2_body (mm_set1_epi16 (alpha_mask P)) mem dst src x =
     update_range (composite P mem dst src) (dst + x) (dst + x + 8) mem"
proof (rule nth_equalityI)
  show len: "length (set_line_sse2_body (mm_set1_epi16 (alpha_mask P)) mem dst src x) =
      length (update_range (composite P mem dst src) (dst + x) (dst + x + 8) mem)"
    using assms
    by (simp add: set_line_sse2_body_def Let_def mm_storeu_si128_def mm_or_si128_def
        mm_and_si128_def mm_andnot_si128_def mm_cmpeq_epi16_def mm_loadu_si128_def
        mm_set1_epi16_def mm_setzero_si128_def)
  fix i
  assume "i < length (set_line_sse2_body (mm_set1_epi16 (alpha_mask P)) mem dst src x)"
  then have i: "i < length mem"
    by (simp add: len)
  show "set_line_sse2_body (mm_set1_epi16 (alpha_mask P)) mem dst src x ! i =
      update_range (composite P mem dst src) (dst + x) (dst + x + 8) mem ! i"
  proof (cases "dst + x \<le> i \<and> i < dst + x + 8")
    case True
    then obtain k where k: "i = dst + x + k" "k < 8"
      by (metis le_Suc_ex nat_add_left_cancel_less)
    then have "src + (i - dst) = src + x + k"
      by simp
    with k assms i show ?thesis
      by (simp add: set_line_sse2_body_def Let_def mm_storeu_si128_def mm_or_si128_def
          mm_and_si128_def mm_andnot_si128_def mm_cmpeq_epi16_def mm_loadu_si128_def
          mm_set1_epi16_def mm_setzero_si128_def set_if_alpha_def composite_def nth_append
          add.assoc)
  next
    case False
    with assms i show ?thesis
      by (auto simp add: set_line_sse2_body_def Let_def mm_storeu_si128_def mm_or_si128_def
          mm_and_si128_def mm_andnot_si128_def mm_cmpeq_epi16_def mm_loadu_si128_def
          mm_set1_epi16_def mm_setzero_si128_def nth_append)
  qed
qed

lemma set_line_sse2_group:
  assumes "dst + n \<le> length mem" "src + n \<le> length mem" "dst \<le> src \<or> src + n \<le> dst"
    and "x + 8 \<le> n"
  shows "set_line_sse2_body (mm_set1_epi16 (alpha_mask P))
           (update_range (composite P mem dst src) dst (dst + x) mem) dst src x =
         update_range (composite P mem dst src) dst (dst + (x + 8)) mem"
proof -
  let ?g = "composite P mem dst src"
  let ?cur = "update_range ?g dst (dst + x) mem"
  have "set_line_sse2_body (mm_set1_epi16 (alpha_mask P)) ?cur dst src x =
      update_range (composite P ?cur dst src) (dst + x) (dst + x + 8) ?cur"
    using assms by (intro set_line_sse2_body_eq) simp_all
  also have "\<dots> = update_range ?g (dst + x) (dst + x + 8) ?cur"
  proof (rule update_range_cong)
    fix i
    assume i: "dst + x \<le> i" "i < dst + x + 8" "i < length ?cur"
    then have "src + (i - dst) < length mem"
      using assms by simp
    moreover have "\<not> (dst \<le> src + (i - dst) \<and> src + (i - dst) < dst + x)"
      using i assms by auto
    ultimately have "?cur ! (src + (i - dst)) = mem ! (src + (i - dst))"
      by (simp only: nth_update_range if_False)
    then show "composite P ?cur dst src i (?cur ! i) = ?g i (?cur ! i)"
      by (simp only: composite_def)
  qed
  also have "\<dots> = update_range ?g dst (dst + x + 8) mem"
    by (intro update_range_join) simp_all
  finally show ?thesis
    by (simp only: add.assoc)
qed

lemma mask_rgb_sse2_body_eq:
  assumes "x + 8 \<le> length dst"
  shows "mask_rgb_sse2_body (mm_set1_epi16 m) dst x = update_range (\<lambda>i p. p AND m) x (x + 8) dst"
proof (rule nth_equalityI)
  show len: "length (mask_rgb_sse2_body (mm_set1_epi16 m) dst x) =
      length (update_range (\<lambda>i p. p AND m) x (x + 8) dst)"
    using assms
    by (simp add: mask_rgb_sse2_body_def mm_storeu_si128_def mm_and_si128_def mm_loadu_si128_def
        mm_set1_epi16_def)
  fix i
  assume "i < length (mask_rgb_sse2_body (mm_set1_epi16 m) dst x)"
  then have i: "i < length dst"
    by (simp add: len)
  show "mask_rgb_sse2_body (mm_set1_epi16 m) dst x ! i = update_range (\<lambda>i p. p AND m) x (x + 8) dst ! i"
    using assms i
    by (auto simp add: mask_rgb_sse2_body_def mm_storeu_si128_def mm_and_si128_def mm_loadu_si128_def
        mm_set1_epi16_def nth_append)
qed

lemma std_transform_eq:
  "lo \<le> hi \<Longrightarrow> hi \<le> length buf \<Longrightarrow>
     std_transform buf lo hi fn = Inr (update_range (\<lambda>i. fn) lo hi buf)"
  unfolding std_transform_def
  by (auto intro!: nth_equalityI simp add: nth_append)

subsection \<open>The vector loops below the wrap-around\<close>

lemma unat_plus_8: "unat (x :: 32 word) + 8 < 2 ^ 32 \<Longrightarrow> unat (x + 8) = unat x + 8"
  by (simp add: unat_word_ariths)

lemma set_line_sse2_loop_eq:
  assumes "dst + unat pix \<le> length mem" "src + unat pix \<le> length mem"
    and "dst \<le> src \<or> src + unat pix \<le> dst"
    and "unat pix + 8 \<le> 2 ^ 32" "unat x \<le> unat pix" "unat x + 8 < 2 ^ 32"
  shows "\<exists>x'. set_line_sse2_loop (mm_set1_epi16 (alpha_mask P))
             (update_range (composite P mem dst src) dst (dst + unat x) mem) dst src pix x =
           Some (Inr (update_range (composite P mem dst src) dst (dst + unat x') mem, x'))
         \<and> x' \<le> pix"
  using assms(5,6)
proof (induction "unat pix - unat x" arbitrary: x rule: less_induct)
  case less
  let ?m = "mm_set1_epi16 (alpha_mask P)"
  let ?g = "composite P mem dst src"
  let ?cur = "update_range ?g dst (dst + unat x) mem"
  show ?case
  proof (cases "x + 8 < pix")
    case False
    then have "set_line_sse2_loop ?m ?cur dst src pix x = Some (Inr (?cur, x))"
      by (subst set_line_sse2_loop.simps) (simp only: if_False)
    with less.prems show ?thesis
      by (intro exI [of _ x]) (simp add: word_le_nat_alt)
  next
    case True
    have u: "unat (x + 8) = unat x + 8"
      using less.prems by (intro unat_plus_8)
    with True have lt: "unat x + 8 < unat pix"
      by (simp add: word_less_nat_alt)
    have inb: "dst + unat x + 8 \<le> length ?cur \<and> src + unat x + 8 \<le> length ?cur"
      using lt assms(1,2) by simp
    have body: "set_line_sse2_body ?m ?cur dst src (unat x) = update_range ?g dst (dst + unat (x + 8)) mem"
      unfolding u using assms(1-3) lt by (intro set_line_sse2_group [where n = "unat pix"]) simp_all
    have "set_line_sse2_loop ?m ?cur dst src pix x =
        set_line_sse2_loop ?m (set_line_sse2_body ?m ?cur dst src (unat x)) dst src pix (x + 8)"
      by (subst set_line_sse2_loop.simps) (simp only: True inb if_True simp_thms)
    also have "\<dots> = set_line_sse2_loop ?m (update_range ?g dst (dst + unat (x + 8)) mem) dst src pix (x + 8)"
      by (simp only: body)
    finally have unf: "set_line_sse2_loop ?m ?cur dst src pix x =
        set_line_sse2_loop ?m (update_range ?g dst (dst + unat (x + 8)) mem) dst src pix (x + 8)" .
    have "\<exists>x'. set_line_sse2_loop ?m (update_range ?g dst (dst + unat (x + 8)) mem) dst src pix (x + 8) =
           Some (Inr (update_range ?g dst (dst + unat x') mem, x')) \<and> x' \<le> pix"
      using lt u assms(4) by (intro less.hyps) simp_all
    then show ?thesis
      by (simp only: unf)
  qed
qed

lemma set_line_if_alpha_sse2_eq_scalar:
  assumes "dst + unat pix \<le> length mem" "src + unat pix \<le> length mem"
    and "dst \<le> src \<or> src + unat pix \<le> dst" "unat pix + 8 \<le> 2 ^ 32"
  shows "set_line_if_alpha_sse2 P mem dst src pix = Some (set_line_if_alpha P mem dst src pix)"
proof -
  let ?g = "composite P mem dst src"
  have "\<exists>x'. set_line_sse2_loop (mm_set1_epi16 (alpha_mask P))
             (update_range ?g dst (dst + unat (0 :: 32 word)) mem) dst src pix 0 =
           Some (Inr (update_range ?g dst (dst + unat x') mem, x')) \<and> x' \<le> pix"
    using assms by (intro set_line_sse2_loop_eq) simp_all
  then obtain x' where x': "set_line_sse2_loop (mm_set1_epi16 (alpha_mask P)) mem dst src pix 0 =
           Some (Inr (update_range ?g dst (dst + unat x') mem, x'))" "x' \<le> pix"
    by auto
  have "set_line_loop P (update_range ?g dst (dst + unat x') mem) dst src pix x' =
      Inr (update_range ?g dst (dst + unat pix) mem)"
    using assms(1-3) x'(2) by (rule set_line_loop_eq)
  then have "set_line_if_alpha_sse2 P mem dst src pix = Some (Inr (update_range ?g dst (dst + unat pix) mem))"
    using x'(1) by (simp add: set_line_if_alpha_sse2_def)
  then show ?thesis
    using assms(1-3) by (simp add: set_line_if_alpha_eq)
qed

lemma unat_ucast_up_32_64: "unat (ucast (w :: 32 word) :: 64 word) = unat w"
  by (simp only: unat_eq_nat_uint uint_up_ucast is_up len_bit0 len_num1)

lemma mask_rgb_sse2_loop_eq:
  assumes "unat n \<le> length dst" "unat n + 8 \<le> 2 ^ 32" "unat x \<le> unat n" "unat x + 8 < 2 ^ 32"
  shows "\<exists>x'. mask_rgb_sse2_loop (mm_set1_epi16 m) dst n x =
           Some (Inr (update_range (\<lambda>i p. p AND m) (unat x) (unat x') dst, x'))
         \<and> unat x \<le> unat x' \<and> unat x' \<le> unat n"
  using assms
proof (induction "unat n - unat x" arbitrary: x dst rule: less_induct)
  case less
  show ?case
  proof (cases "ucast (x + 8) < n")
    case False
    then have "mask_rgb_sse2_loop (mm_set1_epi16 m) dst n x = Some (Inr (dst, x))"
      by (subst mask_rgb_sse2_loop.simps) simp
    with less.prems show ?thesis
      by (intro exI [of _ x]) simp
  next
    case True
    have u: "unat (x + 8) = unat x + 8"
      using less.prems by (intro unat_plus_8) simp
    with True have lt: "unat x + 8 < unat n"
      by (simp add: word_less_nat_alt unat_ucast_up_32_64)
    let ?g = "\<lambda>i p. p AND m"
    let ?dst = "update_range ?g (unat x) (unat x + 8) dst"
    have body: "mask_rgb_sse2_body (mm_set1_epi16 m) dst (unat x) = ?dst"
      using lt less.prems by (intro mask_rgb_sse2_body_eq) simp_all
    have unf: "mask_rgb_sse2_loop (mm_set1_epi16 m) dst n x =
        mask_rgb_sse2_loop (mm_set1_epi16 m) ?dst n (x + 8)"
      using True lt less.prems by (subst mask_rgb_sse2_loop.simps) (simp add: body)
    have "\<exists>x'. mask_rgb_sse2_loop (mm_set1_epi16 m) ?dst n (x + 8) =
           Some (Inr (update_range ?g (unat (x + 8)) (unat x') ?dst, x'))
         \<and> unat (x + 8) \<le> unat x' \<and> unat x' \<le> unat n"
      using lt less.prems u by (intro less.hyps) simp_all
    then obtain x' where x': "mask_rgb_sse2_loop (mm_set1_epi16 m) ?dst n (x + 8) =
           Some (Inr (update_range ?g (unat (x + 8)) (unat x') ?dst, x'))"
        "unat (x + 8) \<le> unat x'" "unat x' \<le> unat n"
      by blast
    have "update_range ?g (unat (x + 8)) (unat x') ?dst = update_range ?g (unat x) (unat x') dst"
      using x'(2) unfolding u by (intro update_range_join) simp_all
    with unf x' u show ?thesis
      by (intro exI [of _ x']) simp
  qed
qed

lemma mask_rgb_eq:
  "unat n \<le> length dst \<Longrightarrow>
     mask_rgb P dst n = Inr (update_range (\<lambda>i p. p AND rgb_mask P) 0 (unat n) dst)"
  by (simp add: mask_rgb_def std_transform_eq)

lemma mask_rgb_sse2_eq_scalar:
  assumes "unat n \<le> length dst" "unat n + 8 \<le> 2 ^ 32"
  shows "mask_rgb_sse2 P dst n = Some (mask_rgb P dst n)"
proof -
  let ?g = "\<lambda>i p. p AND rgb_mask P"
  obtain x' where x': "mask_rgb_sse2_loop (mm_set1_epi16 (rgb_mask P)) dst n 0 =
           Some (Inr (update_range ?g (unat (0 :: 32 word)) (unat x') dst, x'))" "unat x' \<le> unat n"
    using mask_rgb_sse2_loop_eq [OF assms, of 0 "rgb_mask P"] by auto
  have "std_transform (update_range ?g 0 (unat x') dst) (unat x') (unat n) (\<lambda>pix. pix AND rgb_mask P) =
      Inr (update_range ?g (unat x') (unat n) (update_range ?g 0 (unat x') dst))"
    using assms x'(2) by (intro std_transform_eq) simp_all
  also have "update_range ?g (unat x') (unat n) (update_range ?g 0 (unat x') dst) =
      update_range ?g 0 (unat n) dst"
    using x'(2) by (intro update_range_join) simp_all
  finally have "mask_rgb_sse2 P dst n = Some (Inr (update_range ?g 0 (unat n) dst))"
    using x'(1) by (simp add: mask_rgb_sse2_def)
  then show ?thesis
    using assms by (simp add: mask_rgb_eq)
qed

subsection \<open>What the scalar paths compute\<close>

text \<open>
  C1: for buffers \<open>dst\<close> and \<open>src\<close> of \<open>n\<close> pixels that do not overlap, or that overlap
  with \<open>dst\<close> beginning at or before \<open>src\<close>, and every index \<open>i < n\<close>, the scalar
  \<open>set_line_if_alpha(dst, src, n)\<close> returns, and \<open>dst[i]\<close> then holds the original \<open>src[i]\<close>
  if the original \<open>src[i] & alpha_mask\<close> is not zero, and the original \<open>dst[i]\<close> otherwise.
\<close>

theorem set_line_if_alpha_selects:
  assumes "dst + unat pix \<le> length mem" "src + unat pix \<le> length mem"
    and "dst \<le> src \<or> src + unat pix \<le> dst" "i < unat pix"
  shows "\<exists>out. set_line_if_alpha P mem dst src pix = Inr out \<and> length out = length mem
           \<and> out ! (dst + i) =
               (if mem ! (src + i) AND alpha_mask P \<noteq> 0 then mem ! (src + i) else mem ! (dst + i))"
  using assms by (simp add: set_line_if_alpha_eq composite_def set_if_alpha_def)

text \<open>
  Two buffers of three pixels one behind the other in a memory of six, at \<open>i = 0\<close> (alpha
  set, replaced) and \<open>i = 1\<close> (alpha clear, kept); and two buffers of two pixels that
  overlap, \<open>src = dst + 1\<close>.
\<close>

theorem set_line_if_alpha_selects_witness:
  "3 + unat (3 :: 32 word) \<le> length [0x8005, 7, 0x8001, 1, 2, 3 :: pixel]
   \<and> 0 + unat (3 :: 32 word) \<le> length [0x8005, 7, 0x8001, 1, 2, 3 :: pixel]
   \<and> ((3 :: nat) \<le> 0 \<or> 0 + unat (3 :: 32 word) \<le> 3)
   \<and> (0 :: nat) < unat (3 :: 32 word) \<and> (1 :: nat) < unat (3 :: 32 word)
   \<and> (\<exists>out. set_line_if_alpha Pixel [0x8005, 7, 0x8001, 1, 2, 3] 3 0 3 = Inr out
          \<and> length out = length [0x8005, 7, 0x8001, 1, 2, 3 :: pixel] \<and> out ! (3 + 0) = 0x8005)
   \<and> (\<exists>out. set_line_if_alpha Pixel [0x8005, 7, 0x8001, 1, 2, 3] 3 0 3 = Inr out
          \<and> length out = length [0x8005, 7, 0x8001, 1, 2, 3 :: pixel] \<and> out ! (3 + 1) = 2)
   \<and> 0 + unat (2 :: 32 word) \<le> length [1, 0x8002, 3 :: pixel]
   \<and> 1 + unat (2 :: 32 word) \<le> length [1, 0x8002, 3 :: pixel]
   \<and> ((0 :: nat) \<le> 1 \<or> 1 + unat (2 :: 32 word) \<le> 0)
   \<and> (\<exists>out. set_line_if_alpha Pixel [1, 0x8002, 3] 0 1 2 = Inr out
          \<and> length out = length [1, 0x8002, 3 :: pixel] \<and> out ! (0 + 0) = 0x8002)"
  using set_line_if_alpha_selects [of 3 3 "[0x8005, 7, 0x8001, 1, 2, 3]" 0 0 Pixel]
    set_line_if_alpha_selects [of 3 3 "[0x8005, 7, 0x8001, 1, 2, 3]" 0 1 Pixel]
    set_line_if_alpha_selects [of 0 2 "[1, 0x8002, 3]" 1 0 Pixel]
  by (simp add: alpha_mask_Pixel)

text \<open>
  C1 for every pair of buffers fails. In the array \<open>{0x8001, 2, 3}\<close> with \<open>src\<close> at its
  first and \<open>dst\<close> at its second pixel and \<open>n = 2\<close>, the loop writes \<open>dst[0] = 0x8001\<close>,
  which is \<open>src[1]\<close>, reads it back and writes it to \<open>dst[1]\<close>. The original \<open>src[1] = 2\<close>
  has its alpha bit clear, and \<open>dst[1]\<close> is \<open>0x8001\<close> and no longer 3.
\<close>

theorem set_line_if_alpha_selects_counterexample:
  "set_line_if_alpha Pixel [0x8001, 2, 3] 1 0 2 = Inr [0x8001, 0x8001, 0x8001]
   \<and> [0x8001, 2, 3 :: pixel] ! (0 + 1) AND alpha_mask Pixel = 0
   \<and> [0x8001, 0x8001, 0x8001 :: pixel] ! (1 + 1) \<noteq> [0x8001, 2, 3] ! (1 + 1)"
  by (simp add: set_line_if_alpha_def set_if_alpha_def alpha_mask_Pixel)

text \<open>
  C7: the scalar \<open>mask_rgb\<close> is idempotent. On a buffer that holds at least \<open>n\<close> pixels,
  \<open>mask_rgb(dst, n)\<close> returns a buffer that a second \<open>mask_rgb\<close> returns unchanged; and
  a buffer whose every pixel \<open>p\<close> satisfies \<open>p = p & rgb_mask\<close> is returned unchanged by
  the first.
\<close>

theorem mask_rgb_idempotent:
  assumes "unat n \<le> length dst"
  shows "(\<exists>once. mask_rgb P dst n = Inr once \<and> mask_rgb P once n = Inr once)
       \<and> (list_all (\<lambda>p. p AND rgb_mask P = p) dst \<longrightarrow> mask_rgb P dst n = Inr dst)"
proof
  let ?g = "\<lambda>i p. p AND rgb_mask P"
  have "update_range ?g 0 (unat n) (update_range ?g 0 (unat n) dst) = update_range ?g 0 (unat n) dst"
    by (rule nth_equalityI) (auto simp add: and.assoc)
  then show "\<exists>once. mask_rgb P dst n = Inr once \<and> mask_rgb P once n = Inr once"
    using assms by (simp add: mask_rgb_eq)
next
  show "list_all (\<lambda>p. p AND rgb_mask P = p) dst \<longrightarrow> mask_rgb P dst n = Inr dst"
  proof
    assume m: "list_all (\<lambda>p. p AND rgb_mask P = p) dst"
    have "update_range (\<lambda>i p. p AND rgb_mask P) 0 (unat n) dst = dst"
      using m by (intro nth_equalityI) (auto simp add: list_all_length)
    then show "mask_rgb P dst n = Inr dst"
      using assms by (simp add: mask_rgb_eq)
  qed
qed

text \<open>
  A buffer with alpha bits set, and the buffer \<open>[0x7FFF, 1, 3]\<close> that \<open>mask_rgb\<close> makes
  of it and then leaves as it is.
\<close>

theorem mask_rgb_idempotent_witness:
  "unat (3 :: 64 word) \<le> length [0xFFFF, 0x8001, 3 :: pixel]
   \<and> (\<exists>once. mask_rgb Pixel [0xFFFF, 0x8001, 3] 3 = Inr once \<and> mask_rgb Pixel once 3 = Inr once)
   \<and> list_all (\<lambda>p. p AND rgb_mask Pixel = p) [0x7FFF, 1, 3]
   \<and> mask_rgb Pixel [0x7FFF, 1, 3] 3 = Inr [0x7FFF, 1, 3]"
  using mask_rgb_idempotent [of 3 "[0xFFFF, 0x8001, 3]" Pixel]
    mask_rgb_idempotent [of 3 "[0x7FFF, 1, 3]" Pixel]
  by (simp add: rgb_mask_Pixel)

subsection \<open>The SSE2 paths against the scalar paths\<close>

text \<open>
  Where the two paths agree is proved above: \<open>set_line_if_alpha_sse2_eq_scalar\<close> for at
  most \<open>2^32 - 8\<close> pixels in buffers that do not overlap or have \<open>dst\<close> at or before
  \<open>src\<close>, and \<open>mask_rgb_sse2_eq_scalar\<close> for at most \<open>2^32 - 8\<close> pixels. Ten pixels, one
  vector group and a scalar tail of two, run through both SSE2 paths:
\<close>

lemma replicate_8: "replicate 8 v = [v, v, v, v, v, v, v, v]"
  by (simp add: eval_nat_numeral)

lemma set_line_if_alpha_sse2_ten:
  "set_line_if_alpha_sse2 Pixel
      [1, 2, 3, 4, 5, 6, 7, 8, 9, 10, 0x8000, 0, 0x8001, 0, 0, 0xFFFF, 0, 0, 0x8002, 0x7FFF] 0 10 10
     = Some (Inr [0x8000, 2, 0x8001, 4, 5, 0xFFFF, 7, 8, 0x8002, 10,
                  0x8000, 0, 0x8001, 0, 0, 0xFFFF, 0, 0, 0x8002, 0x7FFF])"
  by (simp add: set_line_if_alpha_sse2_def set_line_sse2_loop.simps set_line_sse2_body_def
      mm_storeu_si128_def mm_or_si128_def mm_and_si128_def mm_andnot_si128_def mm_cmpeq_epi16_def
      mm_loadu_si128_def mm_set1_epi16_def mm_setzero_si128_def alpha_mask_Pixel set_if_alpha_def
      Let_def replicate_8)

lemma mask_rgb_sse2_ten:
  "mask_rgb_sse2 Pixel [0x8000, 0, 0x8001, 0, 0, 0xFFFF, 0, 0, 0x8002, 0x7FFF] 10
     = Some (Inr [0, 0, 1, 0, 0, 0x7FFF, 0, 0, 2, 0x7FFF])"
  by (simp add: mask_rgb_sse2_def mask_rgb_sse2_loop.simps mask_rgb_sse2_body_def
      mm_storeu_si128_def mm_and_si128_def mm_loadu_si128_def mm_set1_epi16_def rgb_mask_Pixel
      std_transform_def replicate_8)

subsection \<open>The vector loops at the wrap-around\<close>

text \<open>
  With \<open>pix\<close> above \<open>2^32 - 8\<close> the condition \<open>x + 8 < pix\<close> holds at every multiple of
  8, also at \<open>x = 2^32 - 8\<close>, where \<open>x + 8\<close> is 0; the group loaded there ends at offset
  \<open>2^32 - 1\<close>, behind the end of a buffer of \<open>pix\<close> pixels. Here the destination is the
  last buffer of the memory.
\<close>

lemma set_line_sse2_loop_overrun:
  assumes "4294967288 < unat pix" "dst + unat pix = length mem" "src + unat pix \<le> length mem"
    and "8 dvd unat x"
  shows "set_line_sse2_loop (mm_set1_epi16 (alpha_mask P)) mem dst src pix x = Some (Inl OutOfBounds)"
  using assms(2-4)
proof (induction "2 ^ 32 - unat x" arbitrary: x mem rule: less_induct)
  case less
  let ?m = "mm_set1_epi16 (alpha_mask P)"
  have pb: "unat pix < 4294967296"
    using unsigned_less [of pix, where ?'a = nat] by simp
  have xb: "unat x < 4294967296"
    using unsigned_less [of x, where ?'a = nat] by simp
  with less.prems(3) have "unat x + 8 \<le> 4294967296"
    by presburger
  then have x8: "unat x + 8 \<le> 2 ^ 32"
    by simp
  show ?case
  proof (cases "unat x + 8 = 2 ^ 32")
    case True
    then have "unat (x + 8) = 0"
      by (simp add: unat_word_ariths)
    then have c: "x + 8 < pix"
      using assms(1) by (simp add: word_less_nat_alt)
    have "\<not> dst + unat x + 8 \<le> length mem"
      using True less.prems(1) pb by simp
    then have "\<not> (dst + unat x + 8 \<le> length mem \<and> src + unat x + 8 \<le> length mem)"
      by simp
    then show ?thesis
      by (subst set_line_sse2_loop.simps) (simp only: c if_True if_False)
  next
    case False
    with x8 have lt: "unat x + 8 < 2 ^ 32"
      by simp
    then have u: "unat (x + 8) = unat x + 8"
      by (rule unat_plus_8)
    from lt have "unat x + 8 < 4294967296"
      by simp
    with less.prems(3) have le: "unat x + 8 \<le> 4294967288"
      by presburger
    then have c: "x + 8 < pix"
      using assms(1) u by (simp add: word_less_nat_alt)
    have inb: "dst + unat x + 8 \<le> length mem" "src + unat x + 8 \<le> length mem"
      using le assms(1) less.prems(1,2) by simp_all
    have len: "length (set_line_sse2_body ?m mem dst src (unat x)) = length mem"
      using inb by (simp add: set_line_sse2_body_eq)
    have d: "8 dvd unat (x + 8)"
      using less.prems(3) by (simp add: u)
    have "set_line_sse2_loop ?m mem dst src pix x =
        set_line_sse2_loop ?m (set_line_sse2_body ?m mem dst src (unat x)) dst src pix (x + 8)"
      by (subst set_line_sse2_loop.simps) (simp only: c inb if_True simp_thms)
    also have "\<dots> = Some (Inl OutOfBounds)"
      using less.prems(1,2) lt u d by (intro less.hyps) (simp_all add: len)
    finally show ?thesis .
  qed
qed

lemma set_line_if_alpha_sse2_overrun:
  assumes "4294967288 < unat pix" "dst + unat pix = length mem" "src + unat pix \<le> length mem"
  shows "set_line_if_alpha_sse2 P mem dst src pix = Some (Inl OutOfBounds)"
proof -
  have "set_line_sse2_loop (mm_set1_epi16 (alpha_mask P)) mem dst src pix 0 = Some (Inl OutOfBounds)"
    using assms by (intro set_line_sse2_loop_overrun) simp_all
  then show ?thesis
    by (simp add: set_line_if_alpha_sse2_def)
qed

text \<open>
  With \<open>size = 2^32\<close> the condition \<open>x + 8 < size\<close> of \<open>mask_rgb\<close> holds for every
  value of the 32-bit counter; the loop stays inside the buffer and never ends.
\<close>

lemma dvd_8_unat_plus_8: "8 dvd unat (x :: 32 word) \<Longrightarrow> 8 dvd unat (x + 8)"
proof -
  assume d: "8 dvd unat x"
  have "unat (x + 8) = (unat x + 8) mod 4294967296"
    by (simp add: unat_word_ariths)
  moreover have "(8 :: nat) dvd 4294967296"
    by simp
  ultimately show ?thesis
    using d by (simp add: dvd_mod)
qed

lemma dvd_8_room: "8 dvd unat (x :: 32 word) \<Longrightarrow> unat x + 8 \<le> 4294967296"
proof -
  assume d: "8 dvd unat x"
  have "unat x < 4294967296"
    using unsigned_less [of x, where ?'a = nat] by simp
  with d show ?thesis
    by presburger
qed

lemma widened_counter_less: "ucast (x :: 32 word) < (4294967296 :: 64 word)"
proof -
  have "unat (ucast x :: 64 word) < 4294967296"
    using unsigned_less [of x, where ?'a = nat] by (simp add: unat_ucast_up_32_64)
  then show ?thesis
    by (simp add: word_less_nat_alt)
qed

lemmas mask_rgb_sse2_loop_induct =
  mask_rgb_sse2_loop.raw_induct [where xa = "(((m, dst), n), x)" for m dst n x, unfolded prod.case]

lemma mask_rgb_sse2_loop_never_returns:
  assumes "mask_rgb_sse2_loop m dst n x = Some y"
  shows "\<not> (m = mm_set1_epi16 v \<and> n = 4294967296 \<and> length dst = 4294967296 \<and> 8 dvd unat x)"
proof (rule mask_rgb_sse2_loop_induct [OF _ assms])
  fix loop :: "m128i \<Rightarrow> pixel list \<Rightarrow> 64 word \<Rightarrow> 32 word \<Rightarrow> (error + pixel list \<times> 32 word) option"
  fix m dst n x y
  assume IH: "\<And>m dst n x y. loop m dst n x = Some y \<Longrightarrow>
      \<not> (m = mm_set1_epi16 v \<and> n = 4294967296 \<and> length dst = 4294967296 \<and> 8 dvd unat x)"
  assume step: "(if ucast (x + 8) < n
      then if unat x + 8 \<le> length dst
           then loop m (mask_rgb_sse2_body m dst (unat x)) n (x + 8)
           else Some (Inl OutOfBounds)
      else Some (Inr (dst, x))) = Some y"
  show "\<not> (m = mm_set1_epi16 v \<and> n = 4294967296 \<and> length dst = 4294967296 \<and> 8 dvd unat x)"
  proof
    assume a: "m = mm_set1_epi16 v \<and> n = 4294967296 \<and> length dst = 4294967296 \<and> 8 dvd unat x"
    then have m: "m = mm_set1_epi16 v" and n: "n = 4294967296"
      and len: "length dst = 4294967296" and d: "8 dvd unat x"
      by blast+
    have inb: "unat x + 8 \<le> length dst"
      using dvd_8_room [OF d] by (simp only: len)
    have c: "ucast (x + 8) < n"
      unfolding n by (rule widened_counter_less)
    have body: "mask_rgb_sse2_body m dst (unat x) = update_range (\<lambda>i p. p AND v) (unat x) (unat x + 8) dst"
      unfolding m using inb by (rule mask_rgb_sse2_body_eq)
    from step c inb have "loop m (mask_rgb_sse2_body m dst (unat x)) n (x + 8) = Some y"
      by simp
    from IH [OF this] have "\<not> (length (mask_rgb_sse2_body m dst (unat x)) = 4294967296 \<and> 8 dvd unat (x + 8))"
      using m n by blast
    moreover have "length (mask_rgb_sse2_body m dst (unat x)) = 4294967296"
      unfolding body length_update_range by (rule len)
    ultimately show False
      using dvd_8_unat_plus_8 [OF d] by blast
  qed
qed

lemma mask_rgb_sse2_diverges:
  "length dst = 4294967296 \<Longrightarrow> mask_rgb_sse2 P dst 4294967296 = None"
proof -
  assume len: "length dst = 4294967296"
  have "mask_rgb_sse2_loop (mm_set1_epi16 (rgb_mask P)) dst 4294967296 0 = None"
  proof (cases "mask_rgb_sse2_loop (mm_set1_epi16 (rgb_mask P)) dst 4294967296 0")
    case None
    then show ?thesis .
  next
    case (Some y)
    from mask_rgb_sse2_loop_never_returns [OF Some, of "rgb_mask P"] len show ?thesis
      by simp
  qed
  then show ?thesis
    by (simp add: mask_rgb_sse2_def)
qed

lemma set_line_if_alpha_zero:
  assumes "dst + unat pix \<le> N" "src + unat pix \<le> N" "dst \<le> src \<or> src + unat pix \<le> dst"
  shows "set_line_if_alpha P (replicate N 0) dst src pix = Inr (replicate N 0)"
proof -
  have "update_range (composite P (replicate N 0) dst src) dst (dst + unat pix) (replicate N 0) =
      replicate N 0"
    using assms by (intro nth_equalityI) (auto simp add: composite_def set_if_alpha_def)
  then show ?thesis
    using assms by (simp add: set_line_if_alpha_eq)
qed

lemma mask_rgb_zero:
  "unat n = N \<Longrightarrow> mask_rgb P (replicate N 0) n = Inr (replicate N 0)"
proof -
  assume n: "unat n = N"
  have "update_range (\<lambda>i p. p AND rgb_mask P) 0 N (replicate N 0) = replicate N 0"
    by (rule nth_equalityI) simp_all
  then show ?thesis
    using n by (simp add: mask_rgb_eq)
qed

text \<open>
  C2: the SSE2 paths of \<open>set_line_if_alpha\<close> and \<open>mask_rgb\<close> are to return the buffers
  that the scalar paths return on the same inputs, for every length. They do not.
  With two buffers of \<open>2^32 - 1\<close> pixels of zeros the vector loop of \<open>set_line_if_alpha\<close>
  runs on at \<open>x = 2^32 - 8\<close> and loads a group that ends behind the buffers, where the
  scalar path returns. With \<open>2^32\<close> pixels of zeros the vector loop of \<open>mask_rgb\<close> never
  ends, where the scalar path returns. And in the array \<open>{0x8001, 1, 2, ..., 10}\<close> with
  \<open>src\<close> at its first and \<open>dst\<close> at its second pixel and 10 pixels, the vector group
  loads the source before its store and changes \<open>dst[0]\<close> alone, where the scalar loop
  reads what it has written and makes every pixel \<open>0x8001\<close>.
\<close>

theorem sse2_paths_differ_from_scalar:
  "set_line_if_alpha_sse2 Pixel (replicate 8589934590 0) 4294967295 0 4294967295
     = Some (Inl OutOfBounds)
   \<and> set_line_if_alpha Pixel (replicate 8589934590 0) 4294967295 0 4294967295
     = Inr (replicate 8589934590 0)
   \<and> mask_rgb_sse2 Pixel (replicate 4294967296 0) 4294967296 = None
   \<and> mask_rgb Pixel (replicate 4294967296 0) 4294967296 = Inr (replicate 4294967296 0)
   \<and> set_line_if_alpha_sse2 Pixel [0x8001, 1, 2, 3, 4, 5, 6, 7, 8, 9, 10] 1 0 10
     = Some (Inr [0x8001, 0x8001, 2, 3, 4, 5, 6, 7, 8, 9, 10])
   \<and> set_line_if_alpha Pixel [0x8001, 1, 2, 3, 4, 5, 6, 7, 8, 9, 10] 1 0 10
     = Inr [0x8001, 0x8001, 0x8001, 0x8001, 0x8001, 0x8001, 0x8001, 0x8001, 0x8001, 0x8001, 0x8001]"
proof (intro conjI)
  show "set_line_if_alpha_sse2 Pixel (replicate 8589934590 0) 4294967295 0 4294967295
     = Some (Inl OutOfBounds)"
    by (rule set_line_if_alpha_sse2_overrun) simp_all
  show "set_line_if_alpha Pixel (replicate 8589934590 0) 4294967295 0 4294967295
     = Inr (replicate 8589934590 0)"
    by (rule set_line_if_alpha_zero) simp_all
  show "mask_rgb_sse2 Pixel (replicate 4294967296 0) 4294967296 = None"
    by (rule mask_rgb_sse2_diverges) simp
  show "mask_rgb Pixel (replicate 4294967296 0) 4294967296 = Inr (replicate 4294967296 0)"
    by (rule mask_rgb_zero) simp
  show "set_line_if_alpha_sse2 Pixel [0x8001, 1, 2, 3, 4, 5, 6, 7, 8, 9, 10] 1 0 10
     = Some (Inr [0x8001, 0x8001, 2, 3, 4, 5, 6, 7, 8, 9, 10])"
    by (simp add: set_line_if_alpha_sse2_def set_line_sse2_loop.simps set_line_sse2_body_def
        mm_storeu_si128_def mm_or_si128_def mm_and_si128_def mm_andnot_si128_def mm_cmpeq_epi16_def
        mm_loadu_si128_def mm_set1_epi16_def mm_setzero_si128_def alpha_mask_Pixel set_if_alpha_def
        Let_def replicate_8)
  show "set_line_if_alpha Pixel [0x8001, 1, 2, 3, 4, 5, 6, 7, 8, 9, 10] 1 0 10
     = Inr [0x8001, 0x8001, 0x8001, 0x8001, 0x8001, 0x8001, 0x8001, 0x8001, 0x8001, 0x8001, 0x8001]"
    by (simp add: set_line_if_alpha_def set_if_alpha_def alpha_mask_Pixel)
qed

section \<open>Points: the order of \<open>Pos::operator<\<close>\<close>

lemma Pos_key_high: "drop_bit 32 (Pos_key p) = ucast (Pos_x p)"
  unfolding Pos_key_def
  by (rule bit_word_eqI) (auto simp add: bit_simps dest: bit_imp_le_length)

lemma Pos_key_low: "take_bit 32 (Pos_key p) = ucast (Pos_y p)"
  unfolding Pos_key_def
  by (rule bit_word_eqI) (auto simp add: bit_simps dest: bit_imp_le_length)

lemma unat_Pos_key: "unat (Pos_key p) = unat (Pos_x p) * 2 ^ 32 + unat (Pos_y p)"
proof -
  have "unat (Pos_key p) =
      unat (drop_bit 32 (Pos_key p)) * 2 ^ 32 + unat (take_bit 32 (Pos_key p))"
    by (simp add: unat_drop_bit_eq unsigned_take_bit_eq take_bit_eq_mod drop_bit_eq_div
        unat_div unat_mod)
  then show ?thesis
    by (simp only: Pos_key_high Pos_key_low unat_ucast_up_32_64)
qed

lemma Pos_less_unsigned_lex:
  "Pos_less p q \<longleftrightarrow> Pos_x p < Pos_x q \<or> (Pos_x p = Pos_x q \<and> Pos_y p < Pos_y q)"
proof -
  have "unat (Pos_y p) < 2 ^ 32" and "unat (Pos_y q) < 2 ^ 32"
    using unsigned_less [of "Pos_y p"] unsigned_less [of "Pos_y q"] by simp_all
  then show ?thesis
    unfolding Pos_less_def word_less_nat_alt unat_Pos_key word_unat_eq_iff
    by auto
qed

lemma uint_sint_cases: "uint (a :: 32 word) = (if sint a < 0 then sint a + 2 ^ 32 else sint a)"
proof -
  have m: "uint a = sint a mod 2 ^ 32"
    by (simp add: uint_sint take_bit_eq_mod)
  have b: "- (2 ^ 31) \<le> sint a" "sint a < 2 ^ 31"
    using sint_ge [of a] sint_lt [of a] by simp_all
  show ?thesis
  proof (cases "sint a < 0")
    case True
    have "(sint a + 2 ^ 32) mod 2 ^ 32 = sint a + 2 ^ 32"
      using b True by (intro mod_pos_pos_trivial) simp_all
    then show ?thesis using True m by simp
  next
    case False
    have "sint a mod 2 ^ 32 = sint a"
      using b False by (intro mod_pos_pos_trivial) simp_all
    then show ?thesis using False m by simp
  qed
qed

text \<open>
  C8: \<open>Pos::operator<\<close> is a strict total order on points: no point is below itself,
  the relation is transitive, and of two distinct points exactly one is below the other.
  It compares the 64-bit keys with \<open>x\<close> in the high and \<open>y\<close> in the low 32 bits, that is
  the numbers \<open>x * 2^32 + y\<close> of the coordinates read without sign; and
  \<open>Pos(1, 5) < Pos(2, 1)\<close>.
\<close>

theorem Pos_less_strict_total_order:
  "\<not> Pos_less p p
   \<and> (Pos_less p q \<longrightarrow> Pos_less q r \<longrightarrow> Pos_less p r)
   \<and> (p \<noteq> q \<longrightarrow> (Pos_less p q \<and> \<not> Pos_less q p) \<or> (Pos_less q p \<and> \<not> Pos_less p q))
   \<and> (Pos_less p q \<longleftrightarrow>
        unat (Pos_x p) * 2 ^ 32 + unat (Pos_y p) < unat (Pos_x q) * 2 ^ 32 + unat (Pos_y q))
   \<and> Pos_less \<lparr>Pos_x = 1, Pos_y = 5\<rparr> \<lparr>Pos_x = 2, Pos_y = 1\<rparr>"
proof (intro conjI impI)
  show "\<not> Pos_less p p"
    by (simp add: Pos_less_def)
  show "Pos_less p r" if "Pos_less p q" "Pos_less q r"
    using that by (simp add: Pos_less_def)
  show "(Pos_less p q \<and> \<not> Pos_less q p) \<or> (Pos_less q p \<and> \<not> Pos_less p q)" if "p \<noteq> q"
  proof -
    from that have "Pos_x p \<noteq> Pos_x q \<or> Pos_y p \<noteq> Pos_y q"
      by (cases p, cases q) auto
    then show ?thesis
      unfolding Pos_less_unsigned_lex by auto
  qed
  show "Pos_less p q \<longleftrightarrow>
      unat (Pos_x p) * 2 ^ 32 + unat (Pos_y p) < unat (Pos_x q) * 2 ^ 32 + unat (Pos_y q)"
    by (simp only: Pos_less_def word_less_nat_alt unat_Pos_key)
  show "Pos_less \<lparr>Pos_x = 1, Pos_y = 5\<rparr> \<lparr>Pos_x = 2, Pos_y = 1\<rparr>"
    by (simp add: Pos_less_unsigned_lex)
qed

text \<open>The points \<open>(1, 5)\<close>, \<open>(2, 1)\<close> and \<open>(2, 2)\<close>, in this order.\<close>

theorem Pos_less_strict_total_order_witness:
  "Pos_less \<lparr>Pos_x = 1, Pos_y = 5\<rparr> \<lparr>Pos_x = 2, Pos_y = 1\<rparr>
   \<and> Pos_less \<lparr>Pos_x = 2, Pos_y = 1\<rparr> \<lparr>Pos_x = 2, Pos_y = 2\<rparr>
   \<and> \<lparr>Pos_x = 1, Pos_y = 5\<rparr> \<noteq> \<lparr>Pos_x = 2, Pos_y = 1\<rparr>
   \<and> Pos_less \<lparr>Pos_x = 1, Pos_y = 5\<rparr> \<lparr>Pos_x = 2, Pos_y = 2\<rparr>
   \<and> \<not> Pos_less \<lparr>Pos_x = 2, Pos_y = 1\<rparr> \<lparr>Pos_x = 1, Pos_y = 5\<rparr>"
  using Pos_less_strict_total_order [of "\<lparr>Pos_x = 1, Pos_y = 5\<rparr>" "\<lparr>Pos_x = 2, Pos_y = 1\<rparr>"
      "\<lparr>Pos_x = 2, Pos_y = 2\<rparr>"]
  by (simp add: Pos_less_unsigned_lex)

text \<open>
  C9: the coordinates enter the key without their sign, so every point with a negative
  \<open>x\<close> is above every point with a non-negative \<open>x\<close>: \<open>Pos(1, 0) < Pos(-1, 0)\<close> and not the
  reverse, where the lexicographic order on the signed coordinates has the reverse.
\<close>

theorem Pos_less_negative_x_above:
  "(sint (Pos_x p) < 0 \<longrightarrow> 0 \<le> sint (Pos_x q) \<longrightarrow> Pos_less q p)
   \<and> Pos_less \<lparr>Pos_x = 1, Pos_y = 0\<rparr> \<lparr>Pos_x = - 1, Pos_y = 0\<rparr>
   \<and> \<not> Pos_less \<lparr>Pos_x = - 1, Pos_y = 0\<rparr> \<lparr>Pos_x = 1, Pos_y = 0\<rparr>
   \<and> signed_lex_less \<lparr>Pos_x = - 1, Pos_y = 0\<rparr> \<lparr>Pos_x = 1, Pos_y = 0\<rparr>"
proof -
  have above: "Pos_less q p" if "sint (Pos_x p) < 0" "0 \<le> sint (Pos_x q)" for p q
    using that sint_lt [of "Pos_x q"] sint_ge [of "Pos_x p"]
    by (simp add: Pos_less_unsigned_lex word_less_def uint_sint_cases)
  have less: "Pos_less \<lparr>Pos_x = 1, Pos_y = 0\<rparr> \<lparr>Pos_x = - 1, Pos_y = 0\<rparr>"
    by (rule above) simp_all
  then have "\<not> Pos_less \<lparr>Pos_x = - 1, Pos_y = 0\<rparr> \<lparr>Pos_x = 1, Pos_y = 0\<rparr>"
    by (auto simp add: Pos_less_def)
  moreover have "signed_lex_less \<lparr>Pos_x = - 1, Pos_y = 0\<rparr> \<lparr>Pos_x = 1, Pos_y = 0\<rparr>"
    by (simp add: signed_lex_less_def)
  ultimately show ?thesis
    using above less by blast
qed

text \<open>The points \<open>(-1, 0)\<close> and \<open>(1, 0)\<close>.\<close>

theorem Pos_less_negative_x_above_witness:
  "sint (Pos_x \<lparr>Pos_x = - 1, Pos_y = 0\<rparr>) < 0 \<and> 0 \<le> sint (Pos_x \<lparr>Pos_x = 1, Pos_y = 0\<rparr>)
   \<and> Pos_less \<lparr>Pos_x = 1, Pos_y = 0\<rparr> \<lparr>Pos_x = - 1, Pos_y = 0\<rparr>"
  using Pos_less_negative_x_above [of "\<lparr>Pos_x = - 1, Pos_y = 0\<rparr>" "\<lparr>Pos_x = 1, Pos_y = 0\<rparr>"]
  by simp

section \<open>Rectangles: the intersection \<open>Rect::operator&\<close>\<close>

lemma sint_add_fits: "int32_fits (sint a + sint b) \<Longrightarrow> sint (a + b :: 32 word) = sint a + sint b"
  by (simp add: int32_fits_def sint_word_add signed_take_bit_int_eq_self)

lemma sint_diff_fits: "int32_fits (sint a - sint b) \<Longrightarrow> sint (a - b :: 32 word) = sint a - sint b"
  by (simp add: int32_fits_def sint_word_diff signed_take_bit_int_eq_self)

lemma sint_std_max: "sint (std_max a b) = max (sint a) (sint b)"
  by (simp add: std_max_def word_sless_alt max_def)

lemma sint_std_min: "sint (std_min a b) = min (sint a) (sint b)"
  by (simp add: std_min_def word_sless_alt min_def)

lemma Rect_and_fields:
  "Rect_and A B =
    (if sint (std_min (Pos_x (Rect_pos A) + Rect_w A) (Pos_x (Rect_pos B) + Rect_w B)
                - std_max (Pos_x (Rect_pos A)) (Pos_x (Rect_pos B))) \<le> 0
      \<or> sint (std_min (Pos_y (Rect_pos A) + Rect_h A) (Pos_y (Rect_pos B) + Rect_h B)
                - std_max (Pos_y (Rect_pos A)) (Pos_y (Rect_pos B))) \<le> 0
     then Rect_empty
     else \<lparr>Rect_pos = \<lparr>Pos_x = std_max (Pos_x (Rect_pos A)) (Pos_x (Rect_pos B)),
                       Pos_y = std_max (Pos_y (Rect_pos A)) (Pos_y (Rect_pos B))\<rparr>,
           Rect_w = std_min (Pos_x (Rect_pos A) + Rect_w A) (Pos_x (Rect_pos B) + Rect_w B)
                - std_max (Pos_x (Rect_pos A)) (Pos_x (Rect_pos B)),
           Rect_h = std_min (Pos_y (Rect_pos A) + Rect_h A) (Pos_y (Rect_pos B) + Rect_h B)
                - std_max (Pos_y (Rect_pos A)) (Pos_y (Rect_pos B))\<rparr>)"
  by (simp add: Rect_and_def Rect_empty_def Let_def word_sle_eq)

lemma width_exact:
  assumes "edge_sums_fit A" "edge_sums_fit B" "differences_fit A B"
  shows "sint (std_min (Pos_x (Rect_pos A) + Rect_w A) (Pos_x (Rect_pos B) + Rect_w B)
                - std_max (Pos_x (Rect_pos A)) (Pos_x (Rect_pos B))) = spec_right A B - spec_left A B"
proof -
  have "sint (Pos_x (Rect_pos A) + Rect_w A) = Rect_right A" "sint (Pos_x (Rect_pos B) + Rect_w B) = Rect_right B"
    using assms(1,2) by (simp_all add: edge_sums_fit_def Rect_right_def sint_add_fits)
  then have r: "sint (std_min (Pos_x (Rect_pos A) + Rect_w A) (Pos_x (Rect_pos B) + Rect_w B)) = spec_right A B"
    by (simp add: sint_std_min spec_right_def)
  have l: "sint (std_max (Pos_x (Rect_pos A)) (Pos_x (Rect_pos B))) = spec_left A B"
    by (simp add: sint_std_max spec_left_def Rect_left_def)
  from assms(3) show ?thesis
    by (simp add: differences_fit_def sint_diff_fits r l)
qed

lemma height_exact:
  assumes "edge_sums_fit A" "edge_sums_fit B" "differences_fit A B"
  shows "sint (std_min (Pos_y (Rect_pos A) + Rect_h A) (Pos_y (Rect_pos B) + Rect_h B)
                - std_max (Pos_y (Rect_pos A)) (Pos_y (Rect_pos B))) = spec_bottom A B - spec_top A B"
proof -
  have "sint (Pos_y (Rect_pos A) + Rect_h A) = Rect_bottom A" "sint (Pos_y (Rect_pos B) + Rect_h B) = Rect_bottom B"
    using assms(1,2) by (simp_all add: edge_sums_fit_def Rect_bottom_def sint_add_fits)
  then have r: "sint (std_min (Pos_y (Rect_pos A) + Rect_h A) (Pos_y (Rect_pos B) + Rect_h B)) = spec_bottom A B"
    by (simp add: sint_std_min spec_bottom_def)
  have l: "sint (std_max (Pos_y (Rect_pos A)) (Pos_y (Rect_pos B))) = spec_top A B"
    by (simp add: sint_std_max spec_top_def Rect_top_def)
  from assms(3) show ?thesis
    by (simp add: differences_fit_def sint_diff_fits r l)
qed

lemma sint_bounds32: "- (2 ^ 31) \<le> sint (a :: 32 word)" "sint (a :: 32 word) < 2 ^ 31"
  using sint_ge [of a] sint_lt [of a] by simp_all

lemma differences_fit_empty_right:
  assumes "edge_sums_fit A"
  shows "differences_fit A Rect_empty"
    and "spec_right A Rect_empty - spec_left A Rect_empty \<le> 0"
  using assms sint_bounds32 [of "Pos_x (Rect_pos A)"] sint_bounds32 [of "Rect_w A"]
    sint_bounds32 [of "Pos_y (Rect_pos A)"] sint_bounds32 [of "Rect_h A"]
  by (auto simp add: differences_fit_def edge_sums_fit_def int32_fits_def spec_right_def spec_left_def
      spec_bottom_def spec_top_def Rect_right_def Rect_left_def Rect_bottom_def Rect_top_def
      Rect_empty_def)

lemma differences_fit_empty_left:
  assumes "edge_sums_fit A"
  shows "differences_fit Rect_empty A"
    and "spec_right Rect_empty A - spec_left Rect_empty A \<le> 0"
  using assms sint_bounds32 [of "Pos_x (Rect_pos A)"] sint_bounds32 [of "Rect_w A"]
    sint_bounds32 [of "Pos_y (Rect_pos A)"] sint_bounds32 [of "Rect_h A"]
  by (auto simp add: differences_fit_def edge_sums_fit_def int32_fits_def spec_right_def spec_left_def
      spec_bottom_def spec_top_def Rect_right_def Rect_left_def Rect_bottom_def Rect_top_def
      Rect_empty_def)

lemma edge_sums_fit_empty: "edge_sums_fit Rect_empty"
  by (simp add: edge_sums_fit_def int32_fits_def Rect_right_def Rect_bottom_def Rect_empty_def)

lemma Rect_and_self: "Rect_and A A = (if Rect_bool A then A else Rect_empty)"
  by (cases A, cases "Rect_pos A")
    (auto simp add: Rect_and_fields Rect_bool_def std_max_def std_min_def word_sless_alt)

text \<open>
  C3: for rectangles \<open>A\<close> and \<open>B\<close> whose edge sums \<open>x + w\<close>, \<open>y + h\<close> and whose
  differences \<open>right - left\<close>, \<open>bottom - top\<close> do not overflow 32-bit signed arithmetic, with
  \<open>left = max(A.x, B.x)\<close>, \<open>right = min(A.x + A.w, B.x + B.w)\<close>, \<open>top = max(A.y, B.y)\<close>,
  \<open>bottom = min(A.y + A.h, B.y + B.h)\<close>: \<open>A & B\<close> is the canonical empty rectangle
  \<open>{{0, 0}, 0, 0}\<close> if \<open>right - left <= 0\<close> or \<open>bottom - top <= 0\<close>, and the rectangle
  \<open>{{left, top}, right - left, bottom - top}\<close> otherwise.
\<close>

theorem Rect_and_spec:
  assumes "edge_sums_fit A" "edge_sums_fit B" "differences_fit A B"
  shows "if spec_right A B - spec_left A B \<le> 0 \<or> spec_bottom A B - spec_top A B \<le> 0
         then Rect_and A B = Rect_empty
         else Rect_left (Rect_and A B) = spec_left A B \<and> Rect_top (Rect_and A B) = spec_top A B
            \<and> sint (Rect_w (Rect_and A B)) = spec_right A B - spec_left A B
            \<and> sint (Rect_h (Rect_and A B)) = spec_bottom A B - spec_top A B"
proof -
  have l: "sint (std_max (Pos_x (Rect_pos A)) (Pos_x (Rect_pos B))) = spec_left A B"
    by (simp add: sint_std_max spec_left_def Rect_left_def)
  have t: "sint (std_max (Pos_y (Rect_pos A)) (Pos_y (Rect_pos B))) = spec_top A B"
    by (simp add: sint_std_max spec_top_def Rect_top_def)
  show ?thesis
    by (simp add: Rect_and_fields width_exact [OF assms] height_exact [OF assms]
        Rect_left_def Rect_top_def l t)
qed

text \<open>
  The rectangles \<open>{{0, 0}, 10, 10}\<close> and \<open>{{5, 5}, 10, 10}\<close> overlap in
  \<open>{{5, 5}, 5, 5}\<close>; the rectangles \<open>{{0, 0}, 4, 4}\<close> and \<open>{{10, 10}, 4, 4}\<close> do not
  overlap.
\<close>

theorem Rect_and_spec_witness:
  "edge_sums_fit \<lparr>Rect_pos = \<lparr>Pos_x = 0, Pos_y = 0\<rparr>, Rect_w = 10, Rect_h = 10\<rparr>
   \<and> edge_sums_fit \<lparr>Rect_pos = \<lparr>Pos_x = 5, Pos_y = 5\<rparr>, Rect_w = 10, Rect_h = 10\<rparr>
   \<and> differences_fit \<lparr>Rect_pos = \<lparr>Pos_x = 0, Pos_y = 0\<rparr>, Rect_w = 10, Rect_h = 10\<rparr>
        \<lparr>Rect_pos = \<lparr>Pos_x = 5, Pos_y = 5\<rparr>, Rect_w = 10, Rect_h = 10\<rparr>
   \<and> Rect_left (Rect_and \<lparr>Rect_pos = \<lparr>Pos_x = 0, Pos_y = 0\<rparr>, Rect_w = 10, Rect_h = 10\<rparr>
        \<lparr>Rect_pos = \<lparr>Pos_x = 5, Pos_y = 5\<rparr>, Rect_w = 10, Rect_h = 10\<rparr>) = 5
   \<and> Rect_top (Rect_and \<lparr>Rect_pos = \<lparr>Pos_x = 0, Pos_y = 0\<rparr>, Rect_w = 10, Rect_h = 10\<rparr>
        \<lparr>Rect_pos = \<lparr>Pos_x = 5, Pos_y = 5\<rparr>, Rect_w = 10, Rect_h = 10\<rparr>) = 5
   \<and> sint (Rect_w (Rect_and \<lparr>Rect_pos = \<lparr>Pos_x = 0, Pos_y = 0\<rparr>, Rect_w = 10, Rect_h = 10\<rparr>
        \<lparr>Rect_pos = \<lparr>Pos_x = 5, Pos_y = 5\<rparr>, Rect_w = 10, Rect_h = 10\<rparr>)) = 5
   \<and> sint (Rect_h (Rect_and \<lparr>Rect_pos = \<lparr>Pos_x = 0, Pos_y = 0\<rparr>, Rect_w = 10, Rect_h = 10\<rparr>
        \<lparr>Rect_pos = \<lparr>Pos_x = 5, Pos_y = 5\<rparr>, Rect_w = 10, Rect_h = 10\<rparr>)) = 5
   \<and> edge_sums_fit \<lparr>Rect_pos = \<lparr>Pos_x = 0, Pos_y = 0\<rparr>, Rect_w = 4, Rect_h = 4\<rparr>
   \<and> edge_sums_fit \<lparr>Rect_pos = \<lparr>Pos_x = 10, Pos_y = 10\<rparr>, Rect_w = 4, Rect_h = 4\<rparr>
   \<and> differences_fit \<lparr>Rect_pos = \<lparr>Pos_x = 0, Pos_y = 0\<rparr>, Rect_w = 4, Rect_h = 4\<rparr>
        \<lparr>Rect_pos = \<lparr>Pos_x = 10, Pos_y = 10\<rparr>, Rect_w = 4, Rect_h = 4\<rparr>
   \<and> Rect_and \<lparr>Rect_pos = \<lparr>Pos_x = 0, Pos_y = 0\<rparr>, Rect_w = 4, Rect_h = 4\<rparr>
        \<lparr>Rect_pos = \<lparr>Pos_x = 10, Pos_y = 10\<rparr>, Rect_w = 4, Rect_h = 4\<rparr> = Rect_empty"
  using Rect_and_spec [of "\<lparr>Rect_pos = \<lparr>Pos_x = 0, Pos_y = 0\<rparr>, Rect_w = 10, Rect_h = 10\<rparr>"
      "\<lparr>Rect_pos = \<lparr>Pos_x = 5, Pos_y = 5\<rparr>, Rect_w = 10, Rect_h = 10\<rparr>"]
    Rect_and_spec [of "\<lparr>Rect_pos = \<lparr>Pos_x = 0, Pos_y = 0\<rparr>, Rect_w = 4, Rect_h = 4\<rparr>"
      "\<lparr>Rect_pos = \<lparr>Pos_x = 10, Pos_y = 10\<rparr>, Rect_w = 4, Rect_h = 4\<rparr>"]
  by (simp add: edge_sums_fit_def int32_fits_def Rect_right_def Rect_bottom_def Rect_left_def Rect_top_def
      differences_fit_def spec_right_def spec_left_def spec_bottom_def spec_top_def)

text \<open>
  C3 with the proviso on the edge sums alone fails. Two 10 by 10 rectangles at
  \<open>x = 1500000000\<close> and \<open>x = -1500000000\<close> have edge sums that fit and
  \<open>right - left = -2999999990\<close>, which no \<open>int\<close> holds; the two's complement difference
  is \<open>1294967306\<close>, and the result is a rectangle of that width, not the empty one.
\<close>

theorem Rect_and_spec_counterexample:
  "edge_sums_fit \<lparr>Rect_pos = \<lparr>Pos_x = 1500000000, Pos_y = 0\<rparr>, Rect_w = 10, Rect_h = 10\<rparr>
   \<and> edge_sums_fit \<lparr>Rect_pos = \<lparr>Pos_x = - 1500000000, Pos_y = 0\<rparr>, Rect_w = 10, Rect_h = 10\<rparr>
   \<and> spec_right \<lparr>Rect_pos = \<lparr>Pos_x = 1500000000, Pos_y = 0\<rparr>, Rect_w = 10, Rect_h = 10\<rparr>
         \<lparr>Rect_pos = \<lparr>Pos_x = - 1500000000, Pos_y = 0\<rparr>, Rect_w = 10, Rect_h = 10\<rparr>
       - spec_left \<lparr>Rect_pos = \<lparr>Pos_x = 1500000000, Pos_y = 0\<rparr>, Rect_w = 10, Rect_h = 10\<rparr>
         \<lparr>Rect_pos = \<lparr>Pos_x = - 1500000000, Pos_y = 0\<rparr>, Rect_w = 10, Rect_h = 10\<rparr> \<le> 0
   \<and> Rect_and \<lparr>Rect_pos = \<lparr>Pos_x = 1500000000, Pos_y = 0\<rparr>, Rect_w = 10, Rect_h = 10\<rparr>
         \<lparr>Rect_pos = \<lparr>Pos_x = - 1500000000, Pos_y = 0\<rparr>, Rect_w = 10, Rect_h = 10\<rparr>
       = \<lparr>Rect_pos = \<lparr>Pos_x = 1500000000, Pos_y = 0\<rparr>, Rect_w = 1294967306, Rect_h = 10\<rparr>
   \<and> Rect_and \<lparr>Rect_pos = \<lparr>Pos_x = 1500000000, Pos_y = 0\<rparr>, Rect_w = 10, Rect_h = 10\<rparr>
         \<lparr>Rect_pos = \<lparr>Pos_x = - 1500000000, Pos_y = 0\<rparr>, Rect_w = 10, Rect_h = 10\<rparr>
       \<noteq> Rect_empty"
  by (simp add: edge_sums_fit_def int32_fits_def Rect_right_def Rect_bottom_def Rect_left_def
      spec_right_def spec_left_def Rect_and_def std_max_def std_min_def Rect_empty_def
      word_sless_alt word_sle_eq Let_def)

text \<open>
  C5: the rectangle returned by \<open>A & B\<close> has a width and a height of at least 0, for all
  rectangles \<open>A\<close> and \<open>B\<close>: a difference that is not positive, wrapped around or not,
  takes the branch of the canonical empty rectangle.
\<close>

theorem Rect_and_nonneg: "0 \<le> sint (Rect_w (Rect_and A B)) \<and> 0 \<le> sint (Rect_h (Rect_and A B))"
proof (cases "Rect_and A B = Rect_empty")
  case True
  then show ?thesis
    by (simp add: Rect_empty_def)
next
  case False
  then have "\<not> sint (Rect_w (Rect_and A B)) \<le> 0 \<and> \<not> sint (Rect_h (Rect_and A B)) \<le> 0"
    by (simp add: Rect_and_fields split: if_splits)
  then show ?thesis
    by simp
qed

text \<open>
  C6: \<open>A & A = A\<close> for every rectangle \<open>A\<close> that is not empty (\<open>w > 0\<close> and \<open>h > 0\<close>);
  for an empty \<open>A\<close>, \<open>A & A\<close> is the canonical empty rectangle; and the intersection of
  the canonical empty rectangle with a rectangle whose edge sums do not overflow, in
  either order, is the canonical empty rectangle.
\<close>

theorem Rect_and_idempotent:
  "(Rect_bool A \<longrightarrow> Rect_and A A = A) \<and> (\<not> Rect_bool A \<longrightarrow> Rect_and A A = Rect_empty)
   \<and> (edge_sums_fit A \<longrightarrow> Rect_and A Rect_empty = Rect_empty \<and> Rect_and Rect_empty A = Rect_empty)"
proof (intro conjI impI)
  assume e: "edge_sums_fit A"
  show "Rect_and A Rect_empty = Rect_empty"
    using differences_fit_empty_right(2) [OF e]
    by (simp add: Rect_and_fields
        width_exact [OF e edge_sums_fit_empty differences_fit_empty_right(1) [OF e]])
  show "Rect_and Rect_empty A = Rect_empty"
    using differences_fit_empty_left(2) [OF e]
    by (simp add: Rect_and_fields
        width_exact [OF edge_sums_fit_empty e differences_fit_empty_left(1) [OF e]])
qed (simp_all add: Rect_and_self)

text \<open>The rectangles \<open>{{3, 4}, 5, 6}\<close>, not empty, and \<open>{{3, 4}, 0, 6}\<close>, empty.\<close>

theorem Rect_and_idempotent_witness:
  "Rect_bool \<lparr>Rect_pos = \<lparr>Pos_x = 3, Pos_y = 4\<rparr>, Rect_w = 5, Rect_h = 6\<rparr>
   \<and> edge_sums_fit \<lparr>Rect_pos = \<lparr>Pos_x = 3, Pos_y = 4\<rparr>, Rect_w = 5, Rect_h = 6\<rparr>
   \<and> \<not> Rect_bool \<lparr>Rect_pos = \<lparr>Pos_x = 3, Pos_y = 4\<rparr>, Rect_w = 0, Rect_h = 6\<rparr>
   \<and> Rect_and \<lparr>Rect_pos = \<lparr>Pos_x = 3, Pos_y = 4\<rparr>, Rect_w = 5, Rect_h = 6\<rparr>
               \<lparr>Rect_pos = \<lparr>Pos_x = 3, Pos_y = 4\<rparr>, Rect_w = 5, Rect_h = 6\<rparr>
       = \<lparr>Rect_pos = \<lparr>Pos_x = 3, Pos_y = 4\<rparr>, Rect_w = 5, Rect_h = 6\<rparr>
   \<and> Rect_and \<lparr>Rect_pos = \<lparr>Pos_x = 3, Pos_y = 4\<rparr>, Rect_w = 5, Rect_h = 6\<rparr> Rect_empty = Rect_empty
   \<and> Rect_and \<lparr>Rect_pos = \<lparr>Pos_x = 3, Pos_y = 4\<rparr>, Rect_w = 0, Rect_h = 6\<rparr>
               \<lparr>Rect_pos = \<lparr>Pos_x = 3, Pos_y = 4\<rparr>, Rect_w = 0, Rect_h = 6\<rparr> = Rect_empty"
  using Rect_and_idempotent [of "\<lparr>Rect_pos = \<lparr>Pos_x = 3, Pos_y = 4\<rparr>, Rect_w = 5, Rect_h = 6\<rparr>"]
    Rect_and_idempotent [of "\<lparr>Rect_pos = \<lparr>Pos_x = 3, Pos_y = 4\<rparr>, Rect_w = 0, Rect_h = 6\<rparr>"]
  by (simp add: Rect_bool_def edge_sums_fit_def int32_fits_def Rect_right_def Rect_bottom_def word_sless_alt)

text \<open>
  C6 for every rectangle fails. The empty rectangle \<open>{{3, 4}, 0, 0}\<close> intersected with
  itself is \<open>{{0, 0}, 0, 0}\<close>, which has another origin. The rectangle
  \<open>{{2147483647, 2147483647}, 1, 1}\<close>, whose edge sums overflow, intersected with the
  canonical empty rectangle is returned as it is.
\<close>

theorem Rect_and_idempotent_counterexample:
  "Rect_and \<lparr>Rect_pos = \<lparr>Pos_x = 3, Pos_y = 4\<rparr>, Rect_w = 0, Rect_h = 0\<rparr>
            \<lparr>Rect_pos = \<lparr>Pos_x = 3, Pos_y = 4\<rparr>, Rect_w = 0, Rect_h = 0\<rparr>
     = \<lparr>Rect_pos = \<lparr>Pos_x = 0, Pos_y = 0\<rparr>, Rect_w = 0, Rect_h = 0\<rparr>
   \<and> Rect_and \<lparr>Rect_pos = \<lparr>Pos_x = 3, Pos_y = 4\<rparr>, Rect_w = 0, Rect_h = 0\<rparr>
            \<lparr>Rect_pos = \<lparr>Pos_x = 3, Pos_y = 4\<rparr>, Rect_w = 0, Rect_h = 0\<rparr>
     \<noteq> \<lparr>Rect_pos = \<lparr>Pos_x = 3, Pos_y = 4\<rparr>, Rect_w = 0, Rect_h = 0\<rparr>
   \<and> Rect_and \<lparr>Rect_pos = \<lparr>Pos_x = 2147483647, Pos_y = 2147483647\<rparr>, Rect_w = 1, Rect_h = 1\<rparr> Rect_empty
     = \<lparr>Rect_pos = \<lparr>Pos_x = 2147483647, Pos_y = 2147483647\<rparr>, Rect_w = 1, Rect_h = 1\<rparr>
   \<and> Rect_and \<lparr>Rect_pos = \<lparr>Pos_x = 2147483647, Pos_y = 2147483647\<rparr>, Rect_w = 1, Rect_h = 1\<rparr> Rect_empty
     \<noteq> Rect_empty"
  by (simp add: Rect_and_def std_max_def std_min_def Rect_empty_def word_sless_alt word_sle_eq Let_def)

text \<open>
  C10: for rectangles \<open>A\<close> and \<open>B\<close> whose edge sums and whose differences
  \<open>right - left\<close>, \<open>bottom - top\<close> do not overflow 32-bit signed arithmetic, a result
  \<open>r = A & B\<close> that converts to \<open>true\<close> lies in both: \<open>A.x <= r.x\<close>,
  \<open>r.x + r.w <= A.x + A.w\<close>, \<open>A.y <= r.y\<close>, \<open>r.y + r.h <= A.y + A.h\<close>, and the same
  for \<open>B\<close>, the sums being those of the mathematical integers.
\<close>

theorem Rect_and_contained:
  assumes "edge_sums_fit A" "edge_sums_fit B" "differences_fit A B" "Rect_bool (Rect_and A B)"
  shows "Rect_left A \<le> Rect_left (Rect_and A B) \<and> Rect_right (Rect_and A B) \<le> Rect_right A
       \<and> Rect_top A \<le> Rect_top (Rect_and A B) \<and> Rect_bottom (Rect_and A B) \<le> Rect_bottom A
       \<and> Rect_left B \<le> Rect_left (Rect_and A B) \<and> Rect_right (Rect_and A B) \<le> Rect_right B
       \<and> Rect_top B \<le> Rect_top (Rect_and A B) \<and> Rect_bottom (Rect_and A B) \<le> Rect_bottom B"
proof -
  have ne: "Rect_and A B \<noteq> Rect_empty"
    using assms(4) by (auto simp add: Rect_bool_def Rect_empty_def word_sless_alt)
  have l: "sint (std_max (Pos_x (Rect_pos A)) (Pos_x (Rect_pos B))) = spec_left A B"
    by (simp add: sint_std_max spec_left_def Rect_left_def)
  have t: "sint (std_max (Pos_y (Rect_pos A)) (Pos_y (Rect_pos B))) = spec_top A B"
    by (simp add: sint_std_max spec_top_def Rect_top_def)
  from ne have "Rect_left (Rect_and A B) = spec_left A B \<and> Rect_top (Rect_and A B) = spec_top A B
      \<and> Rect_right (Rect_and A B) = spec_right A B \<and> Rect_bottom (Rect_and A B) = spec_bottom A B"
    by (simp add: Rect_and_fields Rect_left_def Rect_top_def Rect_right_def Rect_bottom_def l t
        width_exact [OF assms(1-3)] height_exact [OF assms(1-3)] split: if_splits)
  then show ?thesis
    by (simp add: spec_left_def spec_right_def spec_top_def spec_bottom_def)
qed

text \<open>The overlap \<open>{{5, 5}, 5, 5}\<close> of \<open>{{0, 0}, 10, 10}\<close> and \<open>{{5, 5}, 10, 10}\<close>.\<close>

theorem Rect_and_contained_witness:
  "edge_sums_fit \<lparr>Rect_pos = \<lparr>Pos_x = 0, Pos_y = 0\<rparr>, Rect_w = 10, Rect_h = 10\<rparr>
   \<and> edge_sums_fit \<lparr>Rect_pos = \<lparr>Pos_x = 5, Pos_y = 5\<rparr>, Rect_w = 10, Rect_h = 10\<rparr>
   \<and> differences_fit \<lparr>Rect_pos = \<lparr>Pos_x = 0, Pos_y = 0\<rparr>, Rect_w = 10, Rect_h = 10\<rparr>
        \<lparr>Rect_pos = \<lparr>Pos_x = 5, Pos_y = 5\<rparr>, Rect_w = 10, Rect_h = 10\<rparr>
   \<and> Rect_bool (Rect_and \<lparr>Rect_pos = \<lparr>Pos_x = 0, Pos_y = 0\<rparr>, Rect_w = 10, Rect_h = 10\<rparr>
        \<lparr>Rect_pos = \<lparr>Pos_x = 5, Pos_y = 5\<rparr>, Rect_w = 10, Rect_h = 10\<rparr>)
   \<and> Rect_right (Rect_and \<lparr>Rect_pos = \<lparr>Pos_x = 0, Pos_y = 0\<rparr>, Rect_w = 10, Rect_h = 10\<rparr>
        \<lparr>Rect_pos = \<lparr>Pos_x = 5, Pos_y = 5\<rparr>, Rect_w = 10, Rect_h = 10\<rparr>)
       \<le> Rect_right \<lparr>Rect_pos = \<lparr>Pos_x = 0, Pos_y = 0\<rparr>, Rect_w = 10, Rect_h = 10\<rparr>"
  using Rect_and_contained [of "\<lparr>Rect_pos = \<lparr>Pos_x = 0, Pos_y = 0\<rparr>, Rect_w = 10, Rect_h = 10\<rparr>"
      "\<lparr>Rect_pos = \<lparr>Pos_x = 5, Pos_y = 5\<rparr>, Rect_w = 10, Rect_h = 10\<rparr>"]
  by (simp add: edge_sums_fit_def int32_fits_def Rect_right_def Rect_bottom_def Rect_left_def Rect_top_def
      differences_fit_def spec_right_def spec_left_def spec_bottom_def spec_top_def Rect_bool_def
      Rect_and_def std_max_def std_min_def word_sless_alt word_sle_eq Let_def)

text \<open>
  C10 with the proviso on the edge sums alone fails. Two 100 by 100 rectangles at
  \<open>x = 2000000000\<close> and \<open>x = -2000000000\<close> have the result
  \<open>{{2000000000, 0}, 294967396, 100}\<close>: it converts to \<open>true\<close>, and its right edge
  \<open>2294967396\<close> is beyond the right edge \<open>2000000100\<close> of the first.
\<close>

theorem Rect_and_contained_counterexample:
  "edge_sums_fit \<lparr>Rect_pos = \<lparr>Pos_x = 2000000000, Pos_y = 0\<rparr>, Rect_w = 100, Rect_h = 100\<rparr>
   \<and> edge_sums_fit \<lparr>Rect_pos = \<lparr>Pos_x = - 2000000000, Pos_y = 0\<rparr>, Rect_w = 100, Rect_h = 100\<rparr>
   \<and> Rect_bool (Rect_and \<lparr>Rect_pos = \<lparr>Pos_x = 2000000000, Pos_y = 0\<rparr>, Rect_w = 100, Rect_h = 100\<rparr>
         \<lparr>Rect_pos = \<lparr>Pos_x = - 2000000000, Pos_y = 0\<rparr>, Rect_w = 100, Rect_h = 100\<rparr>)
   \<and> Rect_right (Rect_and \<lparr>Rect_pos = \<lparr>Pos_x = 2000000000, Pos_y = 0\<rparr>, Rect_w = 100, Rect_h = 100\<rparr>
         \<lparr>Rect_pos = \<lparr>Pos_x = - 2000000000, Pos_y = 0\<rparr>, Rect_w = 100, Rect_h = 100\<rparr>) = 2294967396
   \<and> Rect_right \<lparr>Rect_pos = \<lparr>Pos_x = 2000000000, Pos_y = 0\<rparr>, Rect_w = 100, Rect_h = 100\<rparr> = 2000000100
   \<and> \<not> Rect_right (Rect_and \<lparr>Rect_pos = \<lparr>Pos_x = 2000000000, Pos_y = 0\<rparr>, Rect_w = 100, Rect_h = 100\<rparr>
         \<lparr>Rect_pos = \<lparr>Pos_x = - 2000000000, Pos_y = 0\<rparr>, Rect_w = 100, Rect_h = 100\<rparr>)
       \<le> Rect_right \<lparr>Rect_pos = \<lparr>Pos_x = 2000000000, Pos_y = 0\<rparr>, Rect_w = 100, Rect_h = 100\<rparr>"
  by (simp add: edge_sums_fit_def int32_fits_def Rect_right_def Rect_bottom_def Rect_bool_def
      Rect_and_def std_max_def std_min_def word_sless_alt word_sle_eq Let_def)

end
